theory Spec2Isabelle
  imports Complex_Main "HOL-Library.Sublist"
begin

section \<open>The channel store\<close>

text \<open>
  One row of the table \<^verbatim>\<open>channels\<close> created by \<^verbatim>\<open>init_db\<close>: the columns
  \<^verbatim>\<open>id, title, access_hash, link, subscribers, last_checked\<close>, in the order in which
  \<^verbatim>\<open>get_all_channels_from_db\<close> selects them (so \<^verbatim>\<open>c[0]\<close> is \<open>row_id\<close>,
  \<^verbatim>\<open>c[4]\<close> is \<open>subscribers\<close> and \<^verbatim>\<open>c[5]\<close> is \<open>last_checked\<close>).
  Python integers are unbounded (\<open>int\<close>); \<^verbatim>\<open>access_hash\<close> and \<^verbatim>\<open>link\<close> may be
  \<^verbatim>\<open>None\<close>/NULL. The column \<^verbatim>\<open>last_checked\<close> is a REAL holding a value of
  \<^verbatim>\<open>time.time()\<close>; times are modelled as exact reals, so the rounding of binary
  floating point is not represented.
\<close>

record channel_row =
  row_id :: int
  title :: string
  access_hash :: "int option"
  link :: "string option"
  subscribers :: int
  last_checked :: real

subsection \<open>Telegram entities and the results of a fetch\<close>

text \<open>
  The fields of a telethon \<^verbatim>\<open>Channel\<close> that the program reads. An entity of a dialog
  is a \<^verbatim>\<open>Channel\<close> or something else (a user or a small group), of which only the id
  is read.
\<close>

record channel_entity =
  ent_id :: int
  ent_title :: string
  ent_access_hash :: "int option"
  username :: "string option"

datatype entity = Channel channel_entity | OtherEntity int

fun entity_id :: "entity \<Rightarrow> int" where
  "entity_id (Channel e) = ent_id e"
| "entity_id (OtherEntity i) = i"

fun is_Channel :: "entity \<Rightarrow> bool" where
  "is_Channel (Channel e) = True"
| "is_Channel (OtherEntity i) = False"

text \<open>
  \<^verbatim>\<open>get_channel_info\<close> is called with an integer id or with the entity of a dialog.
\<close>

datatype peer = PeerId int | PeerEntity entity

text \<open>
  What \<^verbatim>\<open>GetFullChannelRequest\<close> does for a channel: it answers with a
  \<^verbatim>\<open>participants_count\<close>, answers without that attribute, or raises, a
  \<^verbatim>\<open>FloodWaitError\<close> with its seconds or another exception.
\<close>

datatype full_result =
    Participants int
  | NoParticipantsAttr
  | Full_FloodWaitError int
  | Full_Exception string

text \<open>
  What one call of \<^verbatim>\<open>client.get_entity\<close> does: it returns a channel (together with what
  the following \<^verbatim>\<open>GetFullChannelRequest\<close> will do), returns an entity that is no
  channel, or raises one of the exceptions that \<^verbatim>\<open>get_channel_info\<close> tells apart.
\<close>

datatype fetch_step =
    Entity_Channel channel_entity full_result
  | Entity_Other
  | Raise_PeerIdInvalidError
  | Raise_ValueError
  | Raise_UserNotParticipantError
  | Raise_ChannelPrivateError
  | Raise_ChatAdminRequiredError
  | Raise_FloodWaitError int
  | Raise_Exception string

text \<open>What one call of \<^verbatim>\<open>client.send_message\<close> does.\<close>

datatype send_step = Send_Ok | Send_FloodWaitError int | Send_Exception string

text \<open>
  The dictionary returned by \<^verbatim>\<open>get_channel_info\<close>: the successful one (keys
  \<^verbatim>\<open>id, title, access_hash, link, subscribers, entity\<close>, no key \<^verbatim>\<open>error\<close>) or the
  error one (keys \<^verbatim>\<open>id, title, access_hash, link, error\<close>, no key
  \<^verbatim>\<open>subscribers\<close>).
\<close>

record info_ok =
  info_id :: int
  info_title :: string
  info_access_hash :: "int option"
  info_link :: string
  info_subscribers :: int
  info_entity :: channel_entity

record info_err =
  err_id :: peer
  err_title :: string
  err_link :: string
  err_error :: string

datatype channel_info = InfoOk info_ok | InfoErr info_err

subsection \<open>Exceptions, outcomes and the observable events\<close>

datatype exn = FloodWaitError int | KeyError string | OtherException string

text \<open>
  The outcome of a coroutine: it returns, an exception escapes from it, or it awaits an
  answer of the platform that never arrives (\<open>Hang\<close>).
\<close>

datatype 'a outcome = Return 'a | Raise exn | Hang

datatype event =
    GetEntity peer
  | Sleep real
  | SendMessage string
  | Respond string
  | EditProgress string

text \<open>
  The state that the program reads and writes. \<open>db\<close> is the table, in rowid order;
  \<open>clock\<close> is what \<^verbatim>\<open>time.time()\<close> returns; \<open>gateway p\<close> lists what the coming calls
  of \<^verbatim>\<open>client.get_entity\<close> on \<open>p\<close> will do and \<open>sender\<close> what the coming calls of
  \<^verbatim>\<open>client.send_message\<close> will do (a call beyond the end of the list never
  answers); \<open>trace\<close> records the calls of the platform and the sleeps, in order.
  Only \<^verbatim>\<open>asyncio.sleep\<close> moves the clock. The database file is taken to be healthy:
  the \<^verbatim>\<open>sqlite3.Error\<close> handlers of the four database functions are not reached.
\<close>

record world =
  db :: "channel_row list"
  clock :: real
  gateway :: "peer \<Rightarrow> fetch_step list"
  sender :: "send_step list"
  trace :: "event list"

definition log_event :: "event \<Rightarrow> world \<Rightarrow> world" where
  "log_event e w = w\<lparr>trace := trace w @ [e]\<rparr>"

definition asyncio_sleep :: "real \<Rightarrow> world \<Rightarrow> world" where
  "asyncio_sleep d w = w\<lparr>clock := clock w + d, trace := trace w @ [Sleep d]\<rparr>"

subsection \<open>Database functions\<close>

text \<open>
  \<^verbatim>\<open>INSERT OR REPLACE\<close> on the primary key: a row with the same id is deleted and the
  new row is inserted; the table is scanned in the order of the key.
\<close>

definition insert_or_replace :: "channel_row \<Rightarrow> channel_row list \<Rightarrow> channel_row list" where
  "insert_or_replace r rows =
     insort_key row_id r (filter (\<lambda>x. row_id x \<noteq> row_id r) rows)"

text \<open>
  \<^verbatim>\<open>add_channel_to_db\<close> writes the five columns \<^verbatim>\<open>id, title, access_hash, link,
  subscribers\<close>; \<^verbatim>\<open>last_checked\<close> is not among them and takes its column default 0.
  The statement always affects one row, so the function returns \<^verbatim>\<open>True\<close>.
\<close>

definition add_channel_to_db ::
  "int \<Rightarrow> string \<Rightarrow> int option \<Rightarrow> string option \<Rightarrow> int \<Rightarrow> world \<Rightarrow> bool \<times> world" where
  "add_channel_to_db channel_id ttl ahash lnk subs w =
     (True,
      w\<lparr>db := insert_or_replace
          \<lparr>row_id = channel_id, title = ttl, access_hash = ahash, link = lnk,
           subscribers = subs, last_checked = 0\<rparr> (db w)\<rparr>)"

definition remove_channel_from_db :: "int \<Rightarrow> world \<Rightarrow> bool \<times> world" where
  "remove_channel_from_db channel_id w =
     (list_ex (\<lambda>r. row_id r = channel_id) (db w),
      w\<lparr>db := filter (\<lambda>r. row_id r \<noteq> channel_id) (db w)\<rparr>)"

definition get_all_channels_from_db :: "world \<Rightarrow> channel_row list" where
  "get_all_channels_from_db w = db w"

definition update_channel_subscribers :: "int \<Rightarrow> int \<Rightarrow> world \<Rightarrow> bool \<times> world" where
  "update_channel_subscribers channel_id subs w =
     (list_ex (\<lambda>r. row_id r = channel_id) (db w),
      w\<lparr>db := map (\<lambda>r. if row_id r = channel_id
                         then r\<lparr>subscribers := subs, last_checked := clock w\<rparr> else r) (db w)\<rparr>)"

subsection \<open>Formatting\<close>

text \<open>\<^verbatim>\<open>str\<close> of an integer, as the f-strings of the notifications print it.\<close>

fun digits :: "nat \<Rightarrow> string" where
  "digits n =
     (if n < 10 then [''0123456789'' ! n]
      else digits (n div 10) @ [''0123456789'' ! (n mod 10)])"

declare digits.simps [simp del]

definition str_int :: "int \<Rightarrow> string" where
  "str_int i = (if i < 0 then ''-'' @ digits (nat (- i)) else digits (nat i))"

text \<open>An f-string prints the value \<^verbatim>\<open>None\<close> as the text \<^verbatim>\<open>None\<close>.\<close>

fun str_opt :: "string option \<Rightarrow> string" where
  "str_opt None = ''None''"
| "str_opt (Some s) = s"

text \<open>
  The pictograms that start the messages, as the bytes (UTF-8) of the literals in the
  source file.
\<close>

definition icon_robot :: string where
  "icon_robot = [CHR 0xC3, CHR 0xB0, CHR 0xC5, CHR 0xB8, CHR 0xC2, CHR 0xA4, CHR 0xE2, CHR 0x80, CHR 0x93]"

definition icon_people :: string where
  "icon_people = [CHR 0xC3, CHR 0xB0, CHR 0xC5, CHR 0xB8, CHR 0xE2, CHR 0x80, CHR 0x98, CHR 0xC2, CHR 0xA5]"

definition icon_arrow :: string where
  "icon_arrow = [CHR 0xC3, CHR 0xA2, CHR 0xE2, CHR 0x80, CHR 0xA0, CHR 0xE2, CHR 0x80, CHR 0x99]"

definition icon_delta :: string where
  "icon_delta = [CHR 0xC3, CHR 0x8E, CHR 0xE2, CHR 0x80, CHR 0x9D]"

definition icon_hourglass :: string where
  "icon_hourglass = [CHR 0xC3, CHR 0xA2, CHR 0xC2, CHR 0x8F, CHR 0xC2, CHR 0xB3]"

definition icon_check :: string where
  "icon_check = [CHR 0xC3, CHR 0xA2, CHR 0xC5, CHR 0x93, CHR 0xE2, CHR 0x80, CHR 0xA6]"

definition icon_info :: string where
  "icon_info = [CHR 0xC3, CHR 0xA2, CHR 0xE2, CHR 0x80, CHR 0x9E, CHR 0xC2, CHR 0xB9,
                CHR 0xC3, CHR 0xAF, CHR 0xC2, CHR 0xB8, CHR 0xC2, CHR 0x8F]"

definition icon_cross :: string where
  "icon_cross = [CHR 0xC3, CHR 0xA2, CHR 0xC2, CHR 0x9D, CHR 0xC5, CHR 0x92]"

section \<open>Helper functions\<close>

subsection \<open>\<^verbatim>\<open>get_channel_info\<close>\<close>

text \<open>
  The dictionary built for a channel: the link is \<^verbatim>\<open>https://t.me/c/<id>\<close> unless the
  entity has a (non-empty) username; the subscriber count is 0 unless
  \<^verbatim>\<open>GetFullChannelRequest\<close> answers with a \<^verbatim>\<open>participants_count\<close>. Every exception of
  that request, a \<^verbatim>\<open>FloodWaitError\<close> included, is caught by the inner handler, which
  logs a warning and neither sleeps nor asks again.
\<close>

definition channel_dict :: "channel_entity \<Rightarrow> full_result \<Rightarrow> info_ok" where
  "channel_dict e full =
     \<lparr>info_id = ent_id e,
      info_title = ent_title e,
      info_access_hash = ent_access_hash e,
      info_link = (case username e of
                     None \<Rightarrow> ''https://t.me/c/'' @ str_int (ent_id e)
                   | Some u \<Rightarrow> if u = [] then ''https://t.me/c/'' @ str_int (ent_id e)
                              else ''https://t.me/'' @ u),
      info_subscribers = (case full of
                            Participants n \<Rightarrow> n
                          | NoParticipantsAttr \<Rightarrow> 0
                          | Full_FloodWaitError secs \<Rightarrow> 0
                          | Full_Exception x \<Rightarrow> 0),
      info_entity = e\<rparr>"

definition error_dict :: "peer \<Rightarrow> string \<Rightarrow> string \<Rightarrow> channel_info" where
  "error_dict p ttl err = InfoErr \<lparr>err_id = p, err_title = ttl, err_link = ''N/A'', err_error = err\<rparr>"

text \<open>
  What \<^verbatim>\<open>get_channel_info\<close> returns for each answer of \<^verbatim>\<open>client.get_entity\<close> other
  than \<^verbatim>\<open>FloodWaitError\<close>. A flood wait is handled by the retry below, which never
  reads the equation given for it here. The error dictionaries hold \<^verbatim>\<open>access_hash\<close>
  \<^verbatim>\<open>None\<close>, which no caller reads.
\<close>

fun fetch_answer :: "peer \<Rightarrow> fetch_step \<Rightarrow> channel_info option" where
  "fetch_answer p (Entity_Channel e full) = Some (InfoOk (channel_dict e full))"
| "fetch_answer p Entity_Other = None"
| "fetch_answer p Raise_PeerIdInvalidError = Some (error_dict p ''Unknown (Invalid ID)'' ''Invalid Peer ID'')"
| "fetch_answer p Raise_ValueError = Some (error_dict p ''Unknown (Invalid ID)'' ''Invalid Peer ID'')"
| "fetch_answer p Raise_UserNotParticipantError =
     Some (error_dict p ''Unknown (Not Participant)'' ''UserNotParticipantError'')"
| "fetch_answer p Raise_ChannelPrivateError =
     Some (error_dict p ''Unknown (Private Channel)'' ''ChannelPrivateError'')"
| "fetch_answer p Raise_ChatAdminRequiredError =
     Some (error_dict p ''Unknown (Admin Rights Required)'' ''ChatAdminRequiredError'')"
| "fetch_answer p (Raise_FloodWaitError secs) = None"
| "fetch_answer p (Raise_Exception e) = Some (error_dict p ''Unknown (Error)'' e)"

text \<open>
  The body of \<^verbatim>\<open>get_channel_info\<close>, by recursion on the answers that the platform
  still has for this peer: each call of \<^verbatim>\<open>client.get_entity\<close> consumes one. On
  \<^verbatim>\<open>FloodWaitError\<close> the function sleeps \<^verbatim>\<open>e.seconds\<close> and calls itself again.
\<close>

fun get_channel_info_from ::
  "fetch_step list \<Rightarrow> peer \<Rightarrow> world \<Rightarrow> channel_info option outcome \<times> world" where
  "get_channel_info_from [] p w = (Hang, log_event (GetEntity p) w)"
| "get_channel_info_from (s # rest) p w =
     (let w1 = log_event (GetEntity p) (w\<lparr>gateway := (gateway w)(p := rest)\<rparr>)
      in case s of
           Raise_FloodWaitError secs \<Rightarrow>
             get_channel_info_from rest p (asyncio_sleep (real_of_int secs) w1)
         | _ \<Rightarrow> (Return (fetch_answer p s), w1))"

definition get_channel_info :: "peer \<Rightarrow> world \<Rightarrow> channel_info option outcome \<times> world" where
  "get_channel_info p w = get_channel_info_from (gateway w p) p w"

subsection \<open>\<^verbatim>\<open>send_admin_notification\<close>\<close>

definition client_send_message :: "string \<Rightarrow> world \<Rightarrow> unit outcome \<times> world" where
  "client_send_message message w =
     (case sender w of
        [] \<Rightarrow> (Hang, log_event (SendMessage message) w)
      | s # rest \<Rightarrow>
          (let w1 = log_event (SendMessage message) (w\<lparr>sender := rest\<rparr>)
           in case s of
                Send_Ok \<Rightarrow> (Return (), w1)
              | Send_FloodWaitError secs \<Rightarrow> (Raise (FloodWaitError secs), w1)
              | Send_Exception e \<Rightarrow> (Raise (OtherException e), w1)))"

text \<open>
  On \<^verbatim>\<open>FloodWaitError\<close> the message is sent a second time after the sleep, and an
  exception of that second call escapes; any other exception of the first call is logged.
\<close>

definition send_admin_notification :: "string \<Rightarrow> world \<Rightarrow> unit outcome \<times> world" where
  "send_admin_notification message w =
     (case client_send_message message w of
        (Return u, w1) \<Rightarrow> (Return u, w1)
      | (Raise (FloodWaitError secs), w1) \<Rightarrow>
          client_send_message message (asyncio_sleep (real_of_int secs) w1)
      | (Raise x, w1) \<Rightarrow> (Return (), w1)
      | (Hang, w1) \<Rightarrow> (Hang, w1))"

text \<open>
  The call \<^verbatim>\<open>add_channel_to_db(channel_info['id'], channel_info['title'],
  channel_info['access_hash'], channel_info['link'], channel_info['subscribers'])\<close> that the
  event handler, the range command and the polling loop make on a successful dictionary.
\<close>

definition add_info_to_db :: "info_ok \<Rightarrow> world \<Rightarrow> bool \<times> world" where
  "add_info_to_db i w =
     add_channel_to_db (info_id i) (info_title i) (info_access_hash i) (Some (info_link i))
       (info_subscribers i) w"

section \<open>The event handler\<close>

record chat_action =
  user_id :: int
  user_added :: bool
  user_joined :: bool
  user_left :: bool
  user_kicked :: bool
  is_channel :: bool
  chat_id :: int

definition added_message :: "info_ok \<Rightarrow> string" where
  "added_message i =
     icon_robot @ '' Added to new channel!\<newline>Title: '' @ info_title i
       @ ''\<newline>ID: '' @ str_int (info_id i)
       @ ''\<newline>Subscribers: '' @ str_int (info_subscribers i)
       @ ''\<newline>Link: '' @ info_link i"

definition left_message :: "int \<Rightarrow> channel_row option \<Rightarrow> string" where
  "left_message channel_id channel_data =
     icon_robot @ '' Removed from channel!\<newline>ID: '' @ str_int channel_id
       @ (case channel_data of
            None \<Rightarrow> []
          | Some c \<Rightarrow> ''\<newline>Title: '' @ title c
                       @ ''\<newline>Subscribers: '' @ str_int (subscribers c)
                       @ ''\<newline>Link: '' @ str_opt (link c))"

text \<open>
  \<open>me_id\<close> is the id that \<^verbatim>\<open>client.get_me()\<close> returns. A dictionary is used as a
  successful one when it has no key \<^verbatim>\<open>error\<close> or an empty error text; in the second case
  reading \<^verbatim>\<open>channel_info['subscribers']\<close> raises \<^verbatim>\<open>KeyError\<close>.
\<close>

definition handle_chat_action :: "int \<Rightarrow> chat_action \<Rightarrow> world \<Rightarrow> unit outcome \<times> world" where
  "handle_chat_action me_id event w =
     (if user_id event = me_id then
        if user_added event \<or> user_joined event then
          if is_channel event then
            (case get_channel_info (PeerId (chat_id event)) w of
               (Return (Some (InfoOk i)), w1) \<Rightarrow>
                 (case add_info_to_db i w1 of
                    (True, w2) \<Rightarrow> send_admin_notification (added_message i) w2
                  | (False, w2) \<Rightarrow> (Return (), w2))
             | (Return (Some (InfoErr e)), w1) \<Rightarrow>
                 if err_error e = [] then (Raise (KeyError ''subscribers''), w1) else (Return (), w1)
             | (Return None, w1) \<Rightarrow> (Return (), w1)
             | (Raise x, w1) \<Rightarrow> (Raise x, w1)
             | (Hang, w1) \<Rightarrow> (Hang, w1))
          else (Return (), w)
        else if user_left event \<or> user_kicked event then
          if is_channel event then
            (let channel_id = chat_id event;
                 channels = get_all_channels_from_db w;
                 channel_data = find (\<lambda>c. row_id c = channel_id) channels
             in case remove_channel_from_db channel_id w of
                  (True, w1) \<Rightarrow> send_admin_notification (left_message channel_id channel_data) w1
                | (False, w1) \<Rightarrow> (Return (), w1))
          else (Return (), w)
        else (Return (), w)
      else (Return (), w))"

section \<open>The add command\<close>

definition channel_added_message :: "info_ok \<Rightarrow> string" where
  "channel_added_message i =
     icon_check @ '' Channel added!\<newline>Title: '' @ info_title i
       @ ''\<newline>ID: '' @ str_int (info_id i)
       @ ''\<newline>Subscribers: '' @ str_int (info_subscribers i)
       @ ''\<newline>Link: '' @ info_link i"

definition already_tracked_message :: "int \<Rightarrow> string" where
  "already_tracked_message channel_id =
     icon_info @ '' Channel `'' @ str_int channel_id @ ''` already tracked.''"

definition failed_message :: "string \<Rightarrow> string" where
  "failed_message error = icon_cross @ '' Failed to add channel: '' @ error"

text \<open>
  \<^verbatim>\<open>add_channel_command\<close> for the id \<open>channel_id\<close> of the command. The optional request to
  join the channel does not touch the store and its exceptions are discarded; it is left
  out. The \<^verbatim>\<open>KeyError\<close> of a dictionary with an empty error text is caught by the
  handler around the command, which answers with the text of the exception.
  \<^verbatim>\<open>get_channel_info\<close> raises nothing, so no other exception reaches that handler.
\<close>

definition add_channel_command :: "int \<Rightarrow> world \<Rightarrow> unit outcome \<times> world" where
  "add_channel_command channel_id w =
     (let w0 = log_event (Respond (''Adding channel ID: `'' @ str_int channel_id @ ''`...'')) w
      in case get_channel_info (PeerId channel_id) w0 of
           (Return (Some (InfoOk i)), w1) \<Rightarrow>
             (case add_info_to_db i w1 of
                (True, w2) \<Rightarrow> (Return (), log_event (Respond (channel_added_message i)) w2)
              | (False, w2) \<Rightarrow>
                  (Return (), log_event (Respond (already_tracked_message channel_id)) w2))
         | (Return (Some (InfoErr e)), w1) \<Rightarrow>
             if err_error e = []
             then (Return (), log_event (Respond (icon_cross @ '' Error: '' @ [CHR 0x27]
                                @ ''subscribers'' @ [CHR 0x27])) w1)
             else (Return (), log_event (Respond (failed_message (err_error e))) w1)
         | (Return None, w1) \<Rightarrow>
             (Return (), log_event (Respond (failed_message ''Invalid channel'')) w1)
         | (Raise x, w1) \<Rightarrow> (Raise x, w1)
         | (Hang, w1) \<Rightarrow> (Hang, w1))"

section \<open>The range command\<close>

definition progress_message :: "int \<Rightarrow> int \<Rightarrow> int \<Rightarrow> int \<Rightarrow> string" where
  "progress_message total_channels percent done added_count =
     icon_hourglass @ '' Processing '' @ str_int total_channels @ '' channels...\<newline>''
       @ str_int percent @ ''% completed ('' @ str_int done @ ''/'' @ str_int total_channels
       @ '')\<newline>'' @ icon_check @ '' Added: '' @ str_int added_count"

definition start_message :: "int \<Rightarrow> string" where
  "start_message total_channels =
     icon_hourglass @ '' Processing '' @ str_int total_channels @ '' channels...\<newline>''
       @ ''0% completed (0/'' @ str_int total_channels @ '')''"

definition complete_message :: "int \<Rightarrow> int \<Rightarrow> string" where
  "complete_message total_channels added_count =
     icon_check @ '' Range processing complete!\<newline>Total processed: '' @ str_int total_channels
       @ ''\<newline>Channels added: '' @ str_int added_count"

text \<open>
  The \<^verbatim>\<open>try\<close> statement of one iteration: it yields the new \<^verbatim>\<open>added_count\<close>. Every
  exception is caught here (\<^verbatim>\<open>FloodWaitError\<close> with a sleep, the others silently).
\<close>

definition add_range_try :: "int \<Rightarrow> int \<Rightarrow> world \<Rightarrow> int outcome \<times> world" where
  "add_range_try channel_id added_count w =
     (case get_channel_info (PeerId channel_id) w of
        (Return (Some (InfoOk i)), w1) \<Rightarrow>
          (case add_info_to_db i w1 of
             (True, w2) \<Rightarrow> (Return (added_count + 1), w2)
           | (False, w2) \<Rightarrow> (Return added_count, w2))
      | (Return (Some (InfoErr e)), w1) \<Rightarrow> (Return added_count, w1)
      | (Return None, w1) \<Rightarrow> (Return added_count, w1)
      | (Raise (FloodWaitError secs), w1) \<Rightarrow> (Return added_count, asyncio_sleep (real_of_int secs) w1)
      | (Raise x, w1) \<Rightarrow> (Return added_count, w1)
      | (Hang, w1) \<Rightarrow> (Hang, w1))"

text \<open>
  The loop over \<^verbatim>\<open>enumerate(range(start_id, end_id + 1))\<close>. \<open>percent_of (i + 1) total\<close>
  stands for \<^verbatim>\<open>int((i + 1) / total_channels * 100)\<close>, which Python computes in floating
  point; it is a parameter.
\<close>

fun add_range_loop ::
  "(int \<Rightarrow> int \<Rightarrow> int) \<Rightarrow> int \<Rightarrow> int \<Rightarrow> (nat \<times> int) list \<Rightarrow> int \<Rightarrow> world \<Rightarrow> int outcome \<times> world" where
  "add_range_loop percent_of admin_id total_channels [] added_count w = (Return added_count, w)"
| "add_range_loop percent_of admin_id total_channels ((i, channel_id) # rest) added_count w =
     (if channel_id = admin_id
      then add_range_loop percent_of admin_id total_channels rest added_count w
      else case add_range_try channel_id added_count w of
             (Return added1, w1) \<Rightarrow>
               (let w2 = (if i mod 50 = 0 \<or> int i = total_channels - 1
                          then log_event (EditProgress (progress_message total_channels
                                 (percent_of (int i + 1) total_channels) (int i + 1) added1)) w1
                          else w1);
                    w3 = (if i mod 10 = 0 then asyncio_sleep (1 / 2) w2 else w2)
                in add_range_loop percent_of admin_id total_channels rest added1 w3)
           | (Raise x, w1) \<Rightarrow> (Raise x, w1)
           | (Hang, w1) \<Rightarrow> (Hang, w1))"

text \<open>
  \<^verbatim>\<open>event.respond\<close> and \<^verbatim>\<open>progress_msg.edit\<close> are recorded in the trace and taken
  to succeed. \<open>start_id0\<close> and \<open>end_id0\<close> are the two integers of the command. Every
  exception of an iteration is caught inside the loop, so the handler around the whole
  command is not reached and is not modelled.
\<close>

definition add_range_command ::
  "(int \<Rightarrow> int \<Rightarrow> int) \<Rightarrow> int \<Rightarrow> int \<Rightarrow> int \<Rightarrow> world \<Rightarrow> unit outcome \<times> world" where
  "add_range_command percent_of admin_id start_id0 end_id0 w =
     (let start_id = (if start_id0 > end_id0 then end_id0 else start_id0);
          end_id = (if start_id0 > end_id0 then start_id0 else end_id0);
          total_channels = end_id - start_id + 1;
          w0 = log_event (Respond (start_message total_channels)) w
      in case add_range_loop percent_of admin_id total_channels
                (List.enumerate 0 [start_id..end_id]) 0 w0 of
           (Return added_count, w1) \<Rightarrow>
             (Return (), log_event (Respond (complete_message total_channels added_count)) w1)
         | (Raise x, w1) \<Rightarrow> (Raise x, w1)
         | (Hang, w1) \<Rightarrow> (Hang, w1))"

section \<open>The polling loop\<close>

subsection \<open>Membership: new and removed channels\<close>

text \<open>
  A Python set of ids is a list without duplicates; the loops over
  \<^verbatim>\<open>new_channels\<close> and \<^verbatim>\<open>removed_channels\<close> visit it in the order of first occurrence
  (Python leaves the order of a set open).
\<close>

definition current_channels :: "entity list \<Rightarrow> int list" where
  "current_channels dialogs = remdups (map entity_id (filter is_Channel dialogs))"

definition db_ids :: "channel_row list \<Rightarrow> int list" where
  "db_ids db_channels = remdups (map row_id db_channels)"

definition set_minus :: "int list \<Rightarrow> int list \<Rightarrow> int list" where
  "set_minus xs ys = filter (\<lambda>x. x \<notin> set ys) xs"

definition new_channels :: "entity list \<Rightarrow> channel_row list \<Rightarrow> int list" where
  "new_channels dialogs db_channels = set_minus (current_channels dialogs) (db_ids db_channels)"

definition removed_channels :: "entity list \<Rightarrow> channel_row list \<Rightarrow> int list" where
  "removed_channels dialogs db_channels = set_minus (db_ids db_channels) (current_channels dialogs)"

text \<open>\<^verbatim>\<open>{c[0]: c for c in db_channels}\<close>: a later row wins.\<close>

definition db_map :: "channel_row list \<Rightarrow> int \<Rightarrow> channel_row option" where
  "db_map db_channels = map_of (rev (map (\<lambda>c. (row_id c, c)) db_channels))"

definition detected_message :: "info_ok \<Rightarrow> string" where
  "detected_message i =
     icon_robot @ '' New channel detected!\<newline>Title: '' @ info_title i
       @ ''\<newline>Subscribers: '' @ str_int (info_subscribers i)"

definition removed_message :: "channel_row \<Rightarrow> string" where
  "removed_message channel_data =
     icon_robot @ '' Removed from channel!\<newline>Title: '' @ title channel_data
       @ ''\<newline>Last subscribers: '' @ str_int (subscribers channel_data)"

text \<open>
  The loop over \<^verbatim>\<open>new_channels\<close>. It has no \<^verbatim>\<open>try\<close> of its own: an exception ends
  the loop and reaches the handlers of the polling cycle.
\<close>

fun process_new_channels :: "entity list \<Rightarrow> int list \<Rightarrow> world \<Rightarrow> unit outcome \<times> world" where
  "process_new_channels dialogs [] w = (Return (), w)"
| "process_new_channels dialogs (channel_id # rest) w =
     (case find (\<lambda>e. entity_id e = channel_id) dialogs of
        None \<Rightarrow> process_new_channels dialogs rest w
      | Some entity \<Rightarrow>
          (case get_channel_info (PeerEntity entity) w of
             (Return (Some (InfoOk i)), w1) \<Rightarrow>
               (case send_admin_notification (detected_message i) (snd (add_info_to_db i w1)) of
                  (Return u, w2) \<Rightarrow> process_new_channels dialogs rest w2
                | (Raise x, w2) \<Rightarrow> (Raise x, w2)
                | (Hang, w2) \<Rightarrow> (Hang, w2))
           | (Return (Some (InfoErr e)), w1) \<Rightarrow>
               if err_error e = [] then (Raise (KeyError ''subscribers''), w1)
               else process_new_channels dialogs rest w1
           | (Return None, w1) \<Rightarrow> process_new_channels dialogs rest w1
           | (Raise x, w1) \<Rightarrow> (Raise x, w1)
           | (Hang, w1) \<Rightarrow> (Hang, w1)))"

text \<open>
  The loop over \<^verbatim>\<open>removed_channels\<close>: \<^verbatim>\<open>channel_data\<close> comes from \<^verbatim>\<open>db_map\<close>, which
  was built before the loops; the row is deleted and then the notification is sent.
\<close>

fun process_removed_channels ::
  "(int \<Rightarrow> channel_row option) \<Rightarrow> int list \<Rightarrow> world \<Rightarrow> unit outcome \<times> world" where
  "process_removed_channels dbm [] w = (Return (), w)"
| "process_removed_channels dbm (channel_id # rest) w =
     (case dbm channel_id of
        None \<Rightarrow> process_removed_channels dbm rest w
      | Some channel_data \<Rightarrow>
          (case remove_channel_from_db channel_id w of
             (True, w1) \<Rightarrow>
               (case send_admin_notification (removed_message channel_data) w1 of
                  (Return u, w2) \<Rightarrow> process_removed_channels dbm rest w2
                | (Raise x, w2) \<Rightarrow> (Raise x, w2)
                | (Hang, w2) \<Rightarrow> (Hang, w2))
           | (False, w1) \<Rightarrow> process_removed_channels dbm rest w1))"

text \<open>
  The first half of the \<^verbatim>\<open>try\<close> block of a polling cycle, from the dialogs that
  \<^verbatim>\<open>client.get_dialogs()\<close> returned to the end of the loop over
  \<^verbatim>\<open>removed_channels\<close>.
\<close>

definition reconcile_membership :: "entity list \<Rightarrow> world \<Rightarrow> unit outcome \<times> world" where
  "reconcile_membership dialogs w =
     (let db_channels = get_all_channels_from_db w
      in case process_new_channels dialogs (new_channels dialogs db_channels) w of
           (Return u, w1) \<Rightarrow>
             process_removed_channels (db_map db_channels) (removed_channels dialogs db_channels) w1
         | (Raise x, w1) \<Rightarrow> (Raise x, w1)
         | (Hang, w1) \<Rightarrow> (Hang, w1))"

subsection \<open>Subscriber counts\<close>

definition channels_to_update :: "world \<Rightarrow> channel_row list" where
  "channels_to_update w =
     filter (\<lambda>c. clock w - last_checked c > 86400) (get_all_channels_from_db w)"

definition change_message :: "channel_row \<Rightarrow> int \<Rightarrow> string" where
  "change_message channel new_subscribers =
     icon_people @ '' Subscriber change!\<newline>'' @ title channel
       @ ''\<newline>Old: '' @ str_int (subscribers channel) @ '' '' @ icon_arrow
       @ '' New: '' @ str_int new_subscribers
       @ ''\<newline>'' @ icon_delta @ '': '' @ str_int (new_subscribers - subscribers channel)"

text \<open>
  The body of the \<^verbatim>\<open>try\<close> statement of one iteration of the loop over
  \<^verbatim>\<open>enumerate(channels_to_update)\<close>. The pause \<^verbatim>\<open>if idx % 10 == 0\<close> stands inside
  the branch of a successful fetch.
\<close>

definition refresh_try :: "nat \<Rightarrow> channel_row \<Rightarrow> world \<Rightarrow> unit outcome \<times> world" where
  "refresh_try idx channel w =
     (case get_channel_info (PeerId (row_id channel)) w of
        (Return (Some (InfoOk i)), w1) \<Rightarrow>
          (case (if \<bar>info_subscribers i - subscribers channel\<bar> > 50
                 then (let w2 = snd (update_channel_subscribers (row_id channel) (info_subscribers i) w1)
                       in if \<bar>info_subscribers i - subscribers channel\<bar> > 100
                          then send_admin_notification (change_message channel (info_subscribers i)) w2
                          else (Return (), w2))
                 else (Return (), w1)) of
             (Return u, w3) \<Rightarrow> (Return (), if idx mod 10 = 0 then asyncio_sleep 2 w3 else w3)
           | (Raise x, w3) \<Rightarrow> (Raise x, w3)
           | (Hang, w3) \<Rightarrow> (Hang, w3))
      | (Return (Some (InfoErr e)), w1) \<Rightarrow>
          if err_error e = [] then (Raise (KeyError ''subscribers''), w1) else (Return (), w1)
      | (Return None, w1) \<Rightarrow> (Return (), w1)
      | (Raise x, w1) \<Rightarrow> (Raise x, w1)
      | (Hang, w1) \<Rightarrow> (Hang, w1))"

text \<open>One iteration with its two handlers.\<close>

definition refresh_one :: "nat \<Rightarrow> channel_row \<Rightarrow> world \<Rightarrow> unit outcome \<times> world" where
  "refresh_one idx channel w =
     (case refresh_try idx channel w of
        (Return u, w1) \<Rightarrow> (Return (), w1)
      | (Raise (FloodWaitError secs), w1) \<Rightarrow> (Return (), asyncio_sleep (real_of_int secs) w1)
      | (Raise x, w1) \<Rightarrow> (Return (), w1)
      | (Hang, w1) \<Rightarrow> (Hang, w1))"

fun refresh_loop :: "(nat \<times> channel_row) list \<Rightarrow> world \<Rightarrow> unit outcome \<times> world" where
  "refresh_loop [] w = (Return (), w)"
| "refresh_loop ((idx, channel) # rest) w =
     (case refresh_one idx channel w of
        (Return u, w1) \<Rightarrow> refresh_loop rest w1
      | (Raise x, w1) \<Rightarrow> (Raise x, w1)
      | (Hang, w1) \<Rightarrow> (Hang, w1))"

definition refresh_subscribers :: "world \<Rightarrow> unit outcome \<times> world" where
  "refresh_subscribers w = refresh_loop (List.enumerate 0 (channels_to_update w)) w"

subsection \<open>One cycle\<close>

text \<open>
  One pass of the \<^verbatim>\<open>while True\<close> loop of \<^verbatim>\<open>poll_channels\<close>. \<open>get_dialogs\<close> is the
  outcome of \<^verbatim>\<open>client.get_dialogs()\<close> in this cycle and \<open>polling_interval\<close> the
  configured \<^verbatim>\<open>POLLING_INTERVAL\<close>.
\<close>

definition poll_try :: "entity list outcome \<Rightarrow> world \<Rightarrow> unit outcome \<times> world" where
  "poll_try get_dialogs w =
     (case get_dialogs of
        Return dialogs \<Rightarrow>
          (case reconcile_membership dialogs w of
             (Return u, w1) \<Rightarrow> refresh_subscribers w1
           | (Raise x, w1) \<Rightarrow> (Raise x, w1)
           | (Hang, w1) \<Rightarrow> (Hang, w1))
      | Raise x \<Rightarrow> (Raise x, w)
      | Hang \<Rightarrow> (Hang, w))"

definition poll_cycle :: "real \<Rightarrow> entity list outcome \<Rightarrow> world \<Rightarrow> unit outcome \<times> world" where
  "poll_cycle polling_interval get_dialogs w =
     (case poll_try get_dialogs w of
        (Return u, w1) \<Rightarrow> (Return (), asyncio_sleep polling_interval w1)
      | (Raise (FloodWaitError secs), w1) \<Rightarrow>
          (Return (), asyncio_sleep polling_interval (asyncio_sleep (real_of_int secs) w1))
      | (Raise x, w1) \<Rightarrow> (Return (), asyncio_sleep polling_interval w1)
      | (Hang, w1) \<Rightarrow> (Hang, w1))"

section \<open>Reading the trace\<close>

text \<open>
  The texts passed to \<^verbatim>\<open>client.send_message\<close>, the lengths of the sleeps and the
  peers requested, in the order of the trace; and the events that a run has added to the
  trace of the state it started from.
\<close>

fun sent_messages :: "event list \<Rightarrow> string list" where
  "sent_messages [] = []"
| "sent_messages (SendMessage m # t) = m # sent_messages t"
| "sent_messages (e # t) = sent_messages t"

fun sleeps :: "event list \<Rightarrow> real list" where
  "sleeps [] = []"
| "sleeps (Sleep d # t) = d # sleeps t"
| "sleeps (e # t) = sleeps t"

fun fetches :: "event list \<Rightarrow> peer list" where
  "fetches [] = []"
| "fetches (GetEntity p # t) = p # fetches t"
| "fetches (e # t) = fetches t"

definition new_events :: "world \<Rightarrow> world \<Rightarrow> event list" where
  "new_events w w' = drop (length (trace w)) (trace w')"

text \<open>
  The successful dictionary among the results of \<^verbatim>\<open>get_channel_info\<close>, if it is one.
\<close>

fun fetched :: "channel_info option \<Rightarrow> info_ok option" where
  "fetched (Some (InfoOk i)) = Some i"
| "fetched (Some (InfoErr e)) = None"
| "fetched None = None"

text \<open>
  The row that \<^verbatim>\<open>add_channel_to_db\<close> writes for a successful dictionary, and the
  successful dictionaries that the platform can still give: one for each answer of
  \<^verbatim>\<open>client.get_entity\<close> with a channel that is left for some peer.
\<close>

definition info_row :: "info_ok \<Rightarrow> channel_row" where
  "info_row i =
     \<lparr>row_id = info_id i, title = info_title i, access_hash = info_access_hash i,
      link = Some (info_link i), subscribers = info_subscribers i, last_checked = 0\<rparr>"

definition channel_answers :: "world \<Rightarrow> info_ok set" where
  "channel_answers w = {channel_dict e full | p e full. Entity_Channel e full \<in> set (gateway w p)}"

text \<open>
  How the store of a later state \<open>w'\<close> may differ from the store of \<open>w\<close> when every
  write has come from the platform: the platform has no answers left that it did not have
  in \<open>w\<close>, and each row of \<open>w'\<close> is a row of \<open>w\<close>, or the row that
  \<^verbatim>\<open>add_channel_to_db\<close> writes for a channel that \<^verbatim>\<open>client.get_entity\<close> returned (its
  \<open>last_checked\<close> is 0), or such a row with \<open>subscribers\<close> and \<open>last_checked\<close>
  replaced together, the count being that of a channel which \<^verbatim>\<open>client.get_entity\<close>
  returned for the id of the row.
\<close>

definition written_from_fetches :: "world \<Rightarrow> world \<Rightarrow> bool" where
  "written_from_fetches w w' \<longleftrightarrow>
     (\<forall>q. set (gateway w' q) \<subseteq> set (gateway w q))
     \<and> (\<forall>r' \<in> set (db w').
          r' \<in> set (db w) \<union> info_row ` channel_answers w
          \<or> (\<exists>r \<in> set (db w) \<union> info_row ` channel_answers w. \<exists>e full t.
                Entity_Channel e full \<in> set (gateway w (PeerId (row_id r)))
                \<and> r' = r\<lparr>subscribers := info_subscribers (channel_dict e full),
                          last_checked := t\<rparr>))"

section \<open>Example states\<close>

text \<open>Concrete rows, channels and states on which the properties below are evaluated.\<close>

definition no_gateway :: "peer \<Rightarrow> fetch_step list" where
  "no_gateway = (\<lambda>p. [])"

definition example_row :: "int \<Rightarrow> string \<Rightarrow> int \<Rightarrow> real \<Rightarrow> channel_row" where
  "example_row i t s lc =
     \<lparr>row_id = i, title = t, access_hash = Some 77, link = Some ''https://t.me/example'',
      subscribers = s, last_checked = lc\<rparr>"

definition example_channel :: "int \<Rightarrow> string \<Rightarrow> channel_entity" where
  "example_channel i t = \<lparr>ent_id = i, ent_title = t, ent_access_hash = Some 77, username = None\<rparr>"

definition example_world :: "channel_row list \<Rightarrow> world" where
  "example_world rows =
     \<lparr>db = rows, clock = 1700000000, gateway = no_gateway, sender = [], trace = []\<rparr>"

text \<open>A platform that answers the first two requests for channel 7 with a flood wait.\<close>

definition flood_world :: world where
  "flood_world =
     (example_world [])\<lparr>gateway := no_gateway(PeerId 7 :=
        [Raise_FloodWaitError 3, Raise_FloodWaitError 5,
         Entity_Channel (example_channel 7 ''A'') (Participants 10)])\<rparr>"

text \<open>
  One stored channel with 1000 subscribers, for which the platform reports \<open>n\<close>; the
  notifier delivers what it is given.
\<close>

definition refresh_world :: "int \<Rightarrow> world" where
  "refresh_world n =
     (example_world [example_row 1 ''A'' 1000 0])
       \<lparr>gateway := no_gateway(PeerId 1 := [Entity_Channel (example_channel 1 ''A'') (Participants n)]),
        sender := [Send_Ok]\<rparr>"

text \<open>
  The store holds channel 5 with title \<open>X\<close> and 200 subscribers; the bot (id 42) has
  left that channel.
\<close>

definition removal_world :: world where
  "removal_world = (example_world [example_row 5 ''X'' 200 0])\<lparr>sender := [Send_Ok]\<rparr>"

definition left_event :: chat_action where
  "left_event =
     \<lparr>user_id = 42, user_added = False, user_joined = False, user_left = True,
      user_kicked = False, is_channel = True, chat_id = 5\<rparr>"

text \<open>
  The bot is in channel 7, which the store does not hold yet; the first request for the
  channel fails and the second succeeds.
\<close>

definition retry_world :: world where
  "retry_world =
     (example_world [])
       \<lparr>gateway := no_gateway(PeerEntity (Channel (example_channel 7 ''A'')) :=
          [Raise_ChannelPrivateError, Entity_Channel (example_channel 7 ''A'') (Participants 10)]),
        sender := [Send_Ok]\<rparr>"

text \<open>
  The store holds channel 3, which the bot has left, and lacks channel 7, which it has
  joined; the platform answers the request for channel 7 at once.
\<close>

definition sync_world :: world where
  "sync_world =
     (example_world [example_row 3 ''C'' 20 0])
       \<lparr>gateway := no_gateway(PeerEntity (Channel (example_channel 7 ''A'')) :=
          [Entity_Channel (example_channel 7 ''A'') (Participants 10)]),
        sender := [Send_Ok, Send_Ok]\<rparr>"

text \<open>
  A platform on which every id is a channel with 10 subscribers, except the private
  channel 102.
\<close>

definition range_gateway :: "peer \<Rightarrow> fetch_step list" where
  "range_gateway p =
     (case p of
        PeerId c \<Rightarrow> if c = 102 then [Raise_ChannelPrivateError]
                    else [Entity_Channel (example_channel c ''T'') (Participants 10)]
      | PeerEntity e \<Rightarrow> [])"

definition range_world :: world where
  "range_world = (example_world [])\<lparr>gateway := range_gateway\<rparr>"

definition exact_percent :: "int \<Rightarrow> int \<Rightarrow> int" where
  "exact_percent done total_channels = done * 100 div total_channels"

text \<open>
  Eleven stored channels that were never checked; the platform refuses the first and the
  eleventh (private channels) and reports 10 subscribers, the stored count, for the
  others.
\<close>

definition stale_gateway :: "peer \<Rightarrow> fetch_step list" where
  "stale_gateway p =
     (case p of
        PeerId c \<Rightarrow> if c = 1 \<or> c = 11 then [Raise_ChannelPrivateError]
                    else [Entity_Channel (example_channel c ''T'') (Participants 10)]
      | PeerEntity e \<Rightarrow> [])"

definition stale_world :: world where
  "stale_world =
     (example_world (map (\<lambda>i. example_row i ''T'' 10 0) [1, 2, 3, 4, 5, 6, 7, 8, 9, 10, 11]))
       \<lparr>gateway := stale_gateway\<rparr>"

text \<open>
  A platform that finds channel 7 at once but answers the request for its subscriber
  count with a flood wait of 9 seconds.
\<close>

definition count_flood_world :: world where
  "count_flood_world =
     (example_world [])\<lparr>gateway := no_gateway(PeerId 7 :=
        [Entity_Channel (example_channel 7 ''A'') (Full_FloodWaitError 9)])\<rparr>"

text \<open>
  A cycle that adds and removes: the store holds the channels 3 and 5, the bot is in
  channel 7 only; the platform answers the request for channel 7 at once and the notifier
  delivers three messages.
\<close>

definition cycle_world :: world where
  "cycle_world =
     (example_world [example_row 3 ''C'' 20 0, example_row 5 ''X'' 200 0])
       \<lparr>gateway := no_gateway(PeerEntity (Channel (example_channel 7 ''A'')) :=
          [Entity_Channel (example_channel 7 ''A'') (Participants 10)]),
        sender := [Send_Ok, Send_Ok, Send_Ok]\<rparr>"

text \<open>
  The bot (id 42) has joined channel 7, which the platform finds at once; the store is
  empty.
\<close>

definition join_event :: chat_action where
  "join_event =
     \<lparr>user_id = 42, user_added = True, user_joined = False, user_left = False,
      user_kicked = False, is_channel = True, chat_id = 7\<rparr>"

definition join_world :: world where
  "join_world =
     (example_world [])
       \<lparr>gateway := no_gateway(PeerId 7 := [Entity_Channel (example_channel 7 ''A'') (Participants 10)]),
        sender := [Send_Ok]\<rparr>"

text \<open>
  One stored channel with 1000 subscribers; the platform finds the channel, but the
  request for its subscriber count fails.
\<close>

definition count_fail_world :: world where
  "count_fail_world =
     (example_world [example_row 1 ''A'' 1000 0])
       \<lparr>gateway := no_gateway(PeerId 1 :=
          [Entity_Channel (example_channel 1 ''A'') (Full_Exception ''timeout'')]),
        sender := [Send_Ok]\<rparr>"

section \<open>Properties of the store and of the selection\<close>

text \<open>
  Claim C1. In a polling cycle, with \<open>L\<close> the ids of the channels among the dialogs
  (\<open>current_channels\<close>) and \<open>S\<close> the ids of the stored rows (\<open>db_ids\<close>), the channels to
  add are exactly \<open>L - S\<close>, the channels to remove are exactly \<open>S - L\<close>, and no id is in
  both; each id is visited once.
\<close>

theorem membership_diff:
  "set (new_channels dialogs rows) = set (current_channels dialogs) - set (db_ids rows)
   \<and> set (removed_channels dialogs rows) = set (db_ids rows) - set (current_channels dialogs)
   \<and> set (new_channels dialogs rows) \<inter> set (removed_channels dialogs rows) = {}
   \<and> distinct (new_channels dialogs rows) \<and> distinct (removed_channels dialogs rows)
   \<and> set (current_channels dialogs) = entity_id ` set (filter is_Channel dialogs)
   \<and> set (db_ids rows) = row_id ` set rows"
  by (auto simp: new_channels_def removed_channels_def set_minus_def current_channels_def db_ids_def)

theorem membership_diff_witness:
  "set (new_channels [Channel (example_channel 1 ''A''), OtherEntity 9, Channel (example_channel 2 ''B'')]
         [example_row 2 ''B'' 10 0, example_row 3 ''C'' 20 0]) = {1}
   \<and> set (removed_channels [Channel (example_channel 1 ''A''), OtherEntity 9, Channel (example_channel 2 ''B'')]
         [example_row 2 ''B'' 10 0, example_row 3 ''C'' 20 0]) = {3}"
proof -
  let ?D = "[Channel (example_channel 1 ''A''), OtherEntity 9, Channel (example_channel 2 ''B'')]"
  let ?R = "[example_row 2 ''B'' 10 0, example_row 3 ''C'' 20 0]"
  have L: "current_channels ?D = [1, 2]"
    by (simp add: current_channels_def example_channel_def)
  have S: "db_ids ?R = [2, 3]"
    by (simp add: db_ids_def example_row_def)
  note m = membership_diff [of ?D ?R, unfolded L S]
  have "set (new_channels ?D ?R) = set [1, 2] - set [2, 3]"
    by (rule m [THEN conjunct1])
  moreover have "set (removed_channels ?D ?R) = set [2, 3] - set [1, 2]"
    by (rule m [THEN conjunct2, THEN conjunct1])
  moreover have "set [1, 2] - set [2, 3] = {1::int}" "set [2, 3] - set [1, 2] = {3::int}"
    by auto
  ultimately show ?thesis by simp
qed

text \<open>
  Claim C5. A stored channel is selected for the refresh of its subscriber count exactly
  when \<open>now - last_checked > 86400\<close>, a strict comparison: a row last checked 86401
  seconds ago is selected, a row last checked 86399 seconds ago is not.
\<close>

theorem staleness_selection:
  "(c \<in> set (channels_to_update w) \<longleftrightarrow> c \<in> set (db w) \<and> clock w - last_checked c > 86400)
   \<and> (c \<in> set (db w) \<and> last_checked c = clock w - 86401 \<longrightarrow> c \<in> set (channels_to_update w))
   \<and> (last_checked c = clock w - 86399 \<longrightarrow> c \<notin> set (channels_to_update w))"
  by (auto simp: channels_to_update_def get_all_channels_from_db_def)

theorem staleness_selection_witness:
  "example_row 1 ''A'' 10 (1700000000 - 86401)
     \<in> set (channels_to_update (example_world
          [example_row 1 ''A'' 10 (1700000000 - 86401), example_row 2 ''B'' 10 (1700000000 - 86399)]))
   \<and> example_row 2 ''B'' 10 (1700000000 - 86399)
     \<notin> set (channels_to_update (example_world
          [example_row 1 ''A'' 10 (1700000000 - 86401), example_row 2 ''B'' 10 (1700000000 - 86399)]))"
  using staleness_selection [of "example_row 1 ''A'' 10 (1700000000 - 86401)" "example_world
          [example_row 1 ''A'' 10 (1700000000 - 86401), example_row 2 ''B'' 10 (1700000000 - 86399)]"]
    staleness_selection [of "example_row 2 ''B'' 10 (1700000000 - 86399)" "example_world
          [example_row 1 ''A'' 10 (1700000000 - 86401), example_row 2 ''B'' 10 (1700000000 - 86399)]"]
  by (simp add: example_row_def example_world_def)

lemma filter_insort_key_neq:
  "\<not> P x \<Longrightarrow> filter P (insort_key f x xs) = filter P xs"
  by (induction xs) auto

lemma filter_insort_key_eq:
  "\<forall>y \<in> set xs. f y \<noteq> f x \<Longrightarrow> filter (\<lambda>y. f y = f x) (insort_key f x xs) = [x]"
  by (induction xs) auto

text \<open>
  Claim C10. \<^verbatim>\<open>add_channel_to_db\<close> on an id, tracked already or not, leaves exactly one
  row with that id, made of the five written columns and \<open>last_checked = 0\<close>, whatever
  the replaced row held; the other rows stay. With the clock beyond 86400 (any present
  time) the row is stale at once, so the next refresh selects it.
\<close>

theorem readd_resets_last_checked:
  "filter (\<lambda>r. row_id r = cid) (db (snd (add_channel_to_db cid t a l s w)))
     = [\<lparr>row_id = cid, title = t, access_hash = a, link = l, subscribers = s, last_checked = 0\<rparr>]
   \<and> filter (\<lambda>r. row_id r \<noteq> cid) (db (snd (add_channel_to_db cid t a l s w)))
     = filter (\<lambda>r. row_id r \<noteq> cid) (db w)
   \<and> (\<lparr>row_id = cid, title = t, access_hash = a, link = l, subscribers = s, last_checked = 0\<rparr>
        \<in> set (channels_to_update (snd (add_channel_to_db cid t a l s w))) \<longleftrightarrow> 86400 < clock w)"
proof -
  let ?r = "\<lparr>row_id = cid, title = t, access_hash = a, link = l, subscribers = s, last_checked = 0\<rparr>"
  let ?rest = "filter (\<lambda>x. row_id x \<noteq> cid) (db w)"
  have 1: "filter (\<lambda>r. row_id r = cid) (insort_key row_id ?r ?rest) = [?r]"
    using filter_insort_key_eq [of ?rest row_id ?r] by simp
  have 2: "filter (\<lambda>r. row_id r \<noteq> cid) (insort_key row_id ?r ?rest) = ?rest"
    by (simp add: filter_insort_key_neq)
  show ?thesis using 1 2
    by (simp add: add_channel_to_db_def insert_or_replace_def channels_to_update_def
        get_all_channels_from_db_def set_insort_key)
qed

theorem readd_resets_last_checked_witness:
  "filter (\<lambda>r. row_id r = 5)
     (db (snd (add_channel_to_db 5 ''X2'' None None 300 (example_world [example_row 5 ''X'' 200 1699999000]))))
     = [\<lparr>row_id = 5, title = ''X2'', access_hash = None, link = None, subscribers = 300, last_checked = 0\<rparr>]
   \<and> \<lparr>row_id = 5, title = ''X2'', access_hash = None, link = None, subscribers = 300, last_checked = 0\<rparr>
        \<in> set (channels_to_update
             (snd (add_channel_to_db 5 ''X2'' None None 300 (example_world [example_row 5 ''X'' 200 1699999000]))))
   \<and> example_row 5 ''X'' 200 1699999000
        \<notin> set (channels_to_update (example_world [example_row 5 ''X'' 200 1699999000]))"
  using readd_resets_last_checked [of 5 "''X2''" None None 300 "example_world [example_row 5 ''X'' 200 1699999000]"]
  by (simp add: example_row_def example_world_def channels_to_update_def get_all_channels_from_db_def)

section \<open>What the helper functions leave unchanged\<close>

lemma log_event_simps [simp]:
  "db (log_event e w) = db w" "clock (log_event e w) = clock w"
  "gateway (log_event e w) = gateway w" "sender (log_event e w) = sender w"
  "trace (log_event e w) = trace w @ [e]"
  by (simp_all add: log_event_def)

lemma asyncio_sleep_simps [simp]:
  "db (asyncio_sleep d w) = db w" "clock (asyncio_sleep d w) = clock w + d"
  "gateway (asyncio_sleep d w) = gateway w" "sender (asyncio_sleep d w) = sender w"
  "trace (asyncio_sleep d w) = trace w @ [Sleep d]"
  by (simp_all add: asyncio_sleep_def)

lemma get_channel_info_from_frame:
  "db (snd (get_channel_info_from ss p w)) = db w \<and>
   sender (snd (get_channel_info_from ss p w)) = sender w \<and>
   prefix (trace w) (trace (snd (get_channel_info_from ss p w))) \<and>
   (\<forall>x. fst (get_channel_info_from ss p w) \<noteq> Raise x)"
proof (induction ss arbitrary: w)
  case Nil
  show ?case by simp
next
  case (Cons s ss)
  show ?case
  proof (cases s)
    case (Raise_FloodWaitError secs)
    let ?w1 = "asyncio_sleep (real_of_int secs) (log_event (GetEntity p) (w\<lparr>gateway := (gateway w)(p := ss)\<rparr>))"
    have "prefix (trace w) (trace ?w1)" by simp
    with Cons [of ?w1] Raise_FloodWaitError show ?thesis
      by (auto simp: Let_def dest: append_prefixD)
  qed (simp_all add: Let_def)
qed

lemma get_channel_info_frame:
  "db (snd (get_channel_info p w)) = db w"
  "sender (snd (get_channel_info p w)) = sender w"
  "prefix (trace w) (trace (snd (get_channel_info p w)))"
  "fst (get_channel_info p w) \<noteq> Raise x"
  using get_channel_info_from_frame [of "gateway w p" p w]
  by (simp_all add: get_channel_info_def)

lemma client_send_message_frame:
  "db (snd (client_send_message m w)) = db w"
  "gateway (snd (client_send_message m w)) = gateway w"
  "clock (snd (client_send_message m w)) = clock w"
  "trace (snd (client_send_message m w)) = trace w @ [SendMessage m]"
  by (simp_all add: client_send_message_def Let_def split: list.splits send_step.splits)

lemma send_admin_notification_frame:
  "db (snd (send_admin_notification m w)) = db w"
  "gateway (snd (send_admin_notification m w)) = gateway w"
  "prefix (trace w @ [SendMessage m]) (trace (snd (send_admin_notification m w)))"
proof -
  obtain r w1 where c: "client_send_message m w = (r, w1)"
    by (cases "client_send_message m w")
  have w1: "db w1 = db w" "gateway w1 = gateway w" "trace w1 = trace w @ [SendMessage m]"
    using client_send_message_frame [of m w] c by simp_all
  show "db (snd (send_admin_notification m w)) = db w"
    "gateway (snd (send_admin_notification m w)) = gateway w"
    "prefix (trace w @ [SendMessage m]) (trace (snd (send_admin_notification m w)))"
    using c w1
    by (auto simp: send_admin_notification_def client_send_message_frame
        split: outcome.splits exn.splits)
qed

section \<open>Flood waits in \<^verbatim>\<open>get_channel_info\<close>\<close>

lemma get_channel_info_from_floods:
  "\<forall>n. s \<noteq> Raise_FloodWaitError n \<Longrightarrow>
   fst (get_channel_info_from (map Raise_FloodWaitError secs @ s # rest) p w) = Return (fetch_answer p s)
   \<and> trace (snd (get_channel_info_from (map Raise_FloodWaitError secs @ s # rest) p w))
       = trace w @ concat (map (\<lambda>n. [GetEntity p, Sleep (real_of_int n)]) secs) @ [GetEntity p]
   \<and> clock (snd (get_channel_info_from (map Raise_FloodWaitError secs @ s # rest) p w))
       = clock w + real_of_int (sum_list secs)
   \<and> gateway (snd (get_channel_info_from (map Raise_FloodWaitError secs @ s # rest) p w))
       = (gateway w)(p := rest)"
proof (induction secs arbitrary: w)
  case Nil
  then show ?case
    by (cases s) (simp_all add: Let_def)
next
  case (Cons n secs)
  let ?w1 = "asyncio_sleep (real_of_int n) (log_event (GetEntity p)
               (w\<lparr>gateway := (gateway w)(p := map Raise_FloodWaitError secs @ s # rest)\<rparr>))"
  have step: "get_channel_info_from (map Raise_FloodWaitError (n # secs) @ s # rest) p w
                = get_channel_info_from (map Raise_FloodWaitError secs @ s # rest) p ?w1"
    by (simp add: Let_def)
  note ih = Cons.IH [OF Cons.prems, of ?w1]
  show ?case
    unfolding step by (simp add: ih fun_eq_iff)
qed

section \<open>The events of the helper functions\<close>

lemma sent_messages_append [simp]:
  "sent_messages (t @ u) = sent_messages t @ sent_messages u"
  by (induction t rule: sent_messages.induct) simp_all

lemma sleeps_append [simp]: "sleeps (t @ u) = sleeps t @ sleeps u"
  by (induction t rule: sleeps.induct) simp_all

lemma fetches_append [simp]: "fetches (t @ u) = fetches t @ fetches u"
  by (induction t rule: fetches.induct) simp_all

lemma new_events_append [simp]: "trace w' = trace w @ t \<Longrightarrow> new_events w w' = t"
  by (simp add: new_events_def)

lemma get_channel_info_from_events:
  "\<exists>t. trace (snd (get_channel_info_from ss p w)) = trace w @ t \<and> sent_messages t = []
       \<and> set (fetches t) \<subseteq> {p}"
proof (induction ss arbitrary: w)
  case Nil
  show ?case by simp
next
  case (Cons s ss)
  show ?case
  proof (cases s)
    case (Raise_FloodWaitError secs)
    let ?w1 = "asyncio_sleep (real_of_int secs) (log_event (GetEntity p) (w\<lparr>gateway := (gateway w)(p := ss)\<rparr>))"
    obtain t where t: "trace (snd (get_channel_info_from ss p ?w1)) = trace ?w1 @ t"
      "sent_messages t = []" "set (fetches t) \<subseteq> {p}"
      using Cons [of ?w1] by blast
    have "trace (snd (get_channel_info_from (s # ss) p w))
            = trace w @ (GetEntity p # Sleep (real_of_int secs) # t)"
      using t(1) Raise_FloodWaitError by (simp add: Let_def)
    moreover have "sent_messages (GetEntity p # Sleep (real_of_int secs) # t) = []"
      "set (fetches (GetEntity p # Sleep (real_of_int secs) # t)) \<subseteq> {p}"
      using t(2,3) by simp_all
    ultimately show ?thesis by blast
  qed (simp_all add: Let_def)
qed

lemma get_channel_info_events:
  "\<exists>t. trace (snd (get_channel_info p w)) = trace w @ t \<and> sent_messages t = []
       \<and> set (fetches t) \<subseteq> {p}"
  using get_channel_info_from_events [of "gateway w p" p w]
  by (simp add: get_channel_info_def)

lemma send_admin_notification_events:
  "\<exists>t. trace (snd (send_admin_notification m w)) = trace w @ t
       \<and> (sent_messages t = [m] \<or> sent_messages t = [m, m]) \<and> fetches t = []"
proof -
  obtain r w1 where c: "client_send_message m w = (r, w1)"
    by (cases "client_send_message m w")
  have w1: "trace w1 = trace w @ [SendMessage m]"
    using client_send_message_frame [of m w] c by simp
  show ?thesis
    using c w1
    by (auto simp: send_admin_notification_def client_send_message_frame
        split: outcome.splits exn.splits)
qed

section \<open>The refresh of one channel\<close>

lemma update_channel_subscribers_simps [simp]:
  "db (snd (update_channel_subscribers cid n w))
     = map (\<lambda>r. if row_id r = cid then r\<lparr>subscribers := n, last_checked := clock w\<rparr> else r) (db w)"
  "trace (snd (update_channel_subscribers cid n w)) = trace w"
  "clock (snd (update_channel_subscribers cid n w)) = clock w"
  "gateway (snd (update_channel_subscribers cid n w)) = gateway w"
  "sender (snd (update_channel_subscribers cid n w)) = sender w"
  by (simp_all add: update_channel_subscribers_def)

lemma sent_messages_sleep [simp]: "sent_messages (t @ [Sleep d]) = sent_messages t"
  by simp

text \<open>What one iteration does after a successful fetch, by the size of the change.\<close>

lemma refresh_one_small:
  assumes "get_channel_info (PeerId (row_id c)) w = (Return (Some (InfoOk i)), w1)"
    and "\<not> 50 < \<bar>info_subscribers i - subscribers c\<bar>"
  shows "refresh_one idx c w = (Return (), if idx mod 10 = 0 then asyncio_sleep 2 w1 else w1)"
  using assms by (simp add: refresh_one_def refresh_try_def)

lemma refresh_one_medium:
  assumes "get_channel_info (PeerId (row_id c)) w = (Return (Some (InfoOk i)), w1)"
    and "50 < \<bar>info_subscribers i - subscribers c\<bar>"
    and "\<not> 100 < \<bar>info_subscribers i - subscribers c\<bar>"
  shows "refresh_one idx c w =
     (Return (), if idx mod 10 = 0
                 then asyncio_sleep 2 (snd (update_channel_subscribers (row_id c) (info_subscribers i) w1))
                 else snd (update_channel_subscribers (row_id c) (info_subscribers i) w1))"
  using assms by (simp add: refresh_one_def refresh_try_def Let_def)

lemma refresh_one_large:
  assumes "get_channel_info (PeerId (row_id c)) w = (Return (Some (InfoOk i)), w1)"
    and "100 < \<bar>info_subscribers i - subscribers c\<bar>"
    and "send_admin_notification (change_message c (info_subscribers i))
           (snd (update_channel_subscribers (row_id c) (info_subscribers i) w1)) = (r, w3)"
  shows "\<exists>t. fetches t = [] \<and> sent_messages t = [] \<and> db (snd (refresh_one idx c w)) = db w3
           \<and> trace (snd (refresh_one idx c w)) = trace w3 @ t"
proof -
  have "50 < \<bar>info_subscribers i - subscribers c\<bar>"
    using assms(2) by linarith
  then show ?thesis
    using assms
    by (cases r; auto simp: refresh_one_def refresh_try_def Let_def split: exn.splits)
qed

text \<open>
  Claim C4. In the refresh of the subscriber counts, for a selected channel with stored
  count \<open>o\<close> whose fetch succeeds with count \<open>n\<close>: the row is written (count \<open>n\<close>,
  \<open>last_checked\<close> the time of the write) exactly when \<open>|n - o| > 50\<close> and the store is
  otherwise left as it was, \<open>last_checked\<close> included; a notification is passed to
  \<^verbatim>\<open>client.send_message\<close> exactly when \<open>|n - o| > 100\<close>, and it is the subscriber-change
  message of this channel. So a change of 51 writes the row without a notification and a
  change of 101 does both.
\<close>

theorem refresh_thresholds:
  assumes "get_channel_info (PeerId (row_id c)) w = (Return (Some (InfoOk i)), w1)"
  shows "db (snd (refresh_one idx c w)) =
           (if 50 < \<bar>info_subscribers i - subscribers c\<bar>
            then map (\<lambda>r. if row_id r = row_id c
                           then r\<lparr>subscribers := info_subscribers i, last_checked := clock w1\<rparr>
                           else r) (db w)
            else db w)
       \<and> (sent_messages (new_events w (snd (refresh_one idx c w))) \<noteq> []
            \<longleftrightarrow> 100 < \<bar>info_subscribers i - subscribers c\<bar>)
       \<and> set (sent_messages (new_events w (snd (refresh_one idx c w))))
            \<subseteq> {change_message c (info_subscribers i)}"
proof -
  let ?n = "info_subscribers i" and ?o = "subscribers c"
  have w1: "w1 = snd (get_channel_info (PeerId (row_id c)) w)"
    using assms by simp
  have db1: "db w1 = db w"
    unfolding w1 by (rule get_channel_info_frame)
  obtain t1 where t1: "trace w1 = trace w @ t1" "sent_messages t1 = []"
    using get_channel_info_events [of "PeerId (row_id c)" w] unfolding w1 by blast
  consider (small) "\<not> 50 < \<bar>?n - ?o\<bar>"
    | (medium) "50 < \<bar>?n - ?o\<bar>" "\<not> 100 < \<bar>?n - ?o\<bar>"
    | (large) "100 < \<bar>?n - ?o\<bar>"
    by linarith
  then show ?thesis
  proof cases
    case small
    then have "\<not> 100 < \<bar>?n - ?o\<bar>" by linarith
    with small show ?thesis
      using refresh_one_small [OF assms small, of idx] db1 t1
      by (simp add: new_events_def)
  next
    case medium
    then show ?thesis
      using refresh_one_medium [OF assms medium, of idx] db1 t1
      by (simp add: new_events_def)
  next
    case large
    let ?w2 = "snd (update_channel_subscribers (row_id c) ?n w1)"
    obtain r w3 where s: "send_admin_notification (change_message c ?n) ?w2 = (r, w3)"
      by (cases "send_admin_notification (change_message c ?n) ?w2")
    obtain t2 where t2: "trace w3 = trace ?w2 @ t2"
      "sent_messages t2 = [change_message c ?n] \<or> sent_messages t2 = [change_message c ?n, change_message c ?n]"
      using send_admin_notification_events [of "change_message c ?n" ?w2] s by auto
    have db3: "db w3 = db ?w2"
      using send_admin_notification_frame(1) [of "change_message c ?n" ?w2] s by simp
    obtain t3 where t3: "sent_messages t3 = []" "db (snd (refresh_one idx c w)) = db w3"
      "trace (snd (refresh_one idx c w)) = trace w3 @ t3"
      using refresh_one_large [OF assms large s, of idx] by blast
    have tr: "trace (snd (refresh_one idx c w)) = trace w @ (t1 @ t2 @ t3)"
      using t1 t2 t3 by simp
    have big: "50 < \<bar>?n - ?o\<bar>" using large by linarith
    show ?thesis
      using t2(2) t1(2) t3(1,2) db3 db1 large big
      unfolding new_events_append [OF tr]
      by auto
  qed
qed

lemma refresh_world_fetch:
  "get_channel_info (PeerId (row_id (example_row 1 ''A'' 1000 0))) (refresh_world n)
     = (Return (Some (InfoOk (channel_dict (example_channel 1 ''A'') (Participants n)))),
        snd (get_channel_info (PeerId 1) (refresh_world n)))"
  by (simp add: get_channel_info_def refresh_world_def example_world_def example_row_def Let_def)

lemma refresh_world_simps:
  "db (refresh_world n) = [example_row 1 ''A'' 1000 0]"
  "clock (snd (get_channel_info (PeerId 1) (refresh_world n))) = 1700000000"
  "info_subscribers (channel_dict (example_channel 1 ''A'') (Participants n)) = n"
  "subscribers (example_row 1 ''A'' 1000 0) = 1000"
  "row_id (example_row 1 ''A'' 1000 0) = 1"
  "(example_row 1 ''A'' 1000 0)\<lparr>subscribers := n, last_checked := 1700000000\<rparr>
     = example_row 1 ''A'' n 1700000000"
  by (simp_all add: get_channel_info_def refresh_world_def example_world_def Let_def
      channel_dict_def example_row_def)

theorem refresh_thresholds_witness:
  "db (snd (refresh_one 0 (example_row 1 ''A'' 1000 0) (refresh_world 1051)))
     = [example_row 1 ''A'' 1051 1700000000]
   \<and> sent_messages (new_events (refresh_world 1051)
        (snd (refresh_one 0 (example_row 1 ''A'' 1000 0) (refresh_world 1051)))) = []
   \<and> db (snd (refresh_one 0 (example_row 1 ''A'' 1000 0) (refresh_world 1101)))
     = [example_row 1 ''A'' 1101 1700000000]
   \<and> sent_messages (new_events (refresh_world 1101)
        (snd (refresh_one 0 (example_row 1 ''A'' 1000 0) (refresh_world 1101)))) \<noteq> []
   \<and> db (snd (refresh_one 0 (example_row 1 ''A'' 1000 0) (refresh_world 1050)))
     = [example_row 1 ''A'' 1000 0]"
proof -
  note a = refresh_thresholds [OF refresh_world_fetch [of 1051], where idx = 0]
  note b = refresh_thresholds [OF refresh_world_fetch [of 1101], where idx = 0]
  note c = refresh_thresholds [OF refresh_world_fetch [of 1050], where idx = 0]
  show ?thesis
    using a [THEN conjunct1] a [THEN conjunct2, THEN conjunct1]
      b [THEN conjunct1] b [THEN conjunct2, THEN conjunct1] c [THEN conjunct1]
    by (simp add: refresh_world_simps)
qed

section \<open>Who writes \<open>subscribers\<close> and \<open>last_checked\<close>\<close>

lemma refresh_one_write:
  "db (snd (refresh_one idx c w)) = db w
   \<or> (\<exists>i. fst (get_channel_info (PeerId (row_id c)) w) = Return (Some (InfoOk i))
          \<and> db (snd (refresh_one idx c w))
              = db (snd (update_channel_subscribers (row_id c) (info_subscribers i)
                     (snd (get_channel_info (PeerId (row_id c)) w)))))"
proof -
  obtain r w1 where g: "get_channel_info (PeerId (row_id c)) w = (r, w1)"
    by (cases "get_channel_info (PeerId (row_id c)) w")
  have db1: "db w1 = db w"
    using get_channel_info_frame(1) [of "PeerId (row_id c)" w] g by simp
  show ?thesis
  proof (cases "\<exists>i. r = Return (Some (InfoOk i))")
    case True
    then obtain i where r: "r = Return (Some (InfoOk i))" by blast
    note g' = g [unfolded r]
    let ?n = "info_subscribers i" and ?o = "subscribers c"
    let ?w2 = "snd (update_channel_subscribers (row_id c) ?n w1)"
    have w1: "w1 = snd (get_channel_info (PeerId (row_id c)) w)" "fst (get_channel_info (PeerId (row_id c)) w) = Return (Some (InfoOk i))"
      using g' by simp_all
    consider (small) "\<not> 50 < \<bar>?n - ?o\<bar>"
      | (medium) "50 < \<bar>?n - ?o\<bar>" "\<not> 100 < \<bar>?n - ?o\<bar>"
      | (large) "100 < \<bar>?n - ?o\<bar>"
      by linarith
    then have "db (snd (refresh_one idx c w)) = db w \<or> db (snd (refresh_one idx c w)) = db ?w2"
    proof cases
      case small
      show ?thesis
        using refresh_one_small [OF g' small, of idx] db1 by simp
    next
      case medium
      show ?thesis
        using refresh_one_medium [OF g' medium, of idx] by simp
    next
      case large
      obtain r3 w3 where s: "send_admin_notification (change_message c ?n) ?w2 = (r3, w3)"
        by (cases "send_admin_notification (change_message c ?n) ?w2")
      have "db w3 = db ?w2"
        using send_admin_notification_frame(1) [of "change_message c ?n" ?w2] s by simp
      then show ?thesis
        using refresh_one_large [OF g' large s, of idx] by auto
    qed
    then show ?thesis
      unfolding w1(1) using w1(2) by blast
  next
    case False
    then have "db (snd (refresh_one idx c w)) = db w"
      using g db1
      by (auto simp: refresh_one_def refresh_try_def split: outcome.splits option.splits
          channel_info.splits exn.splits)
    then show ?thesis by simp
  qed
qed

section \<open>Removal of a channel\<close>

lemma remove_channel_from_db_simps [simp]:
  "db (snd (remove_channel_from_db cid w)) = filter (\<lambda>r. row_id r \<noteq> cid) (db w)"
  "trace (snd (remove_channel_from_db cid w)) = trace w"
  "fst (remove_channel_from_db cid w) = (cid \<in> row_id ` set (db w))"
  by (auto simp: remove_channel_from_db_def list_ex_iff)

lemma db_map_distinct:
  assumes "distinct (map row_id rows)" and "r \<in> set rows"
  shows "db_map rows (row_id r) = Some r"
proof -
  have "distinct (map fst (rev (map (\<lambda>c. (row_id c, c)) rows)))"
    using assms(1) by (simp add: rev_map [symmetric] comp_def)
  moreover have "(row_id r, r) \<in> set (rev (map (\<lambda>c. (row_id c, c)) rows))"
    using assms(2) by auto
  ultimately show ?thesis
    unfolding db_map_def by (rule map_of_is_SomeI)
qed

lemma find_distinct:
  "distinct (map f xs) \<Longrightarrow> r \<in> set xs \<Longrightarrow> find (\<lambda>c. f c = f r) xs = Some r"
  by (induction xs) (auto simp: image_iff)

lemma process_removed_channels_db:
  "set (db (snd (process_removed_channels dbm ids w))) \<subseteq> set (db w)"
proof (induction ids arbitrary: w)
  case Nil
  show ?case by simp
next
  case (Cons cid ids)
  show ?case
  proof (cases "dbm cid")
    case None
    then show ?thesis using Cons [of w] by simp
  next
    case (Some channel_data)
    obtain b w1 where rm: "remove_channel_from_db cid w = (b, w1)"
      by (cases "remove_channel_from_db cid w")
    have w1: "set (db w1) \<subseteq> set (db w)"
      using remove_channel_from_db_simps(1) [of cid w] rm by auto
    obtain r w2 where s: "send_admin_notification (removed_message channel_data) w1 = (r, w2)"
      by (cases "send_admin_notification (removed_message channel_data) w1")
    have w2: "db w2 = db w1"
      using send_admin_notification_frame(1) [of "removed_message channel_data" w1] s by simp
    show ?thesis
      using Some rm s w1 w2 Cons [of w1] Cons [of w2]
      by (cases b; cases r) auto
  qed
qed

lemma process_removed_channels_trace:
  "prefix (trace w) (trace (snd (process_removed_channels dbm ids w)))"
proof (induction ids arbitrary: w)
  case Nil
  show ?case by simp
next
  case (Cons cid ids)
  show ?case
  proof (cases "dbm cid")
    case None
    then show ?thesis using Cons [of w] by simp
  next
    case (Some channel_data)
    obtain b w1 where rm: "remove_channel_from_db cid w = (b, w1)"
      by (cases "remove_channel_from_db cid w")
    have w1: "trace w1 = trace w"
      using remove_channel_from_db_simps(2) [of cid w] rm by simp
    obtain r w2 where s: "send_admin_notification (removed_message channel_data) w1 = (r, w2)"
      by (cases "send_admin_notification (removed_message channel_data) w1")
    have w2: "prefix (trace w) (trace w2)"
      using send_admin_notification_frame(3) [where m = "removed_message channel_data" and w = w1] s w1
      by (auto dest: append_prefixD)
    have "prefix (trace w) (trace (snd (process_removed_channels dbm ids w2)))"
      using w2 Cons [of w2] by (rule prefix_order.trans)
    then show ?thesis
      using Some rm s w1 w2 Cons [of w1]
      by (cases b; cases r) auto
  qed
qed

lemma process_removed_channels_first:
  assumes "dbm cid = Some channel_data" and "cid \<in> row_id ` set (db w)"
  shows "(\<exists>t. trace (snd (process_removed_channels dbm (cid # ids) w))
               = trace w @ SendMessage (removed_message channel_data) # t)
    \<and> cid \<notin> row_id ` set (db (snd (process_removed_channels dbm (cid # ids) w)))"
proof -
  let ?w1 = "w\<lparr>db := filter (\<lambda>r. row_id r \<noteq> cid) (db w)\<rparr>"
  have rm: "remove_channel_from_db cid w = (True, ?w1)"
    using assms(2) by (auto simp: remove_channel_from_db_def list_ex_iff)
  obtain r w2 where s: "send_admin_notification (removed_message channel_data) ?w1 = (r, w2)"
    by (cases "send_admin_notification (removed_message channel_data) ?w1")
  have step: "process_removed_channels dbm (cid # ids) w =
      (case r of Return u \<Rightarrow> process_removed_channels dbm ids w2
       | Raise x \<Rightarrow> (Raise x, w2) | Hang \<Rightarrow> (Hang, w2))"
    using assms(1) by (simp add: rm s)
  have w2: "db w2 = db ?w1" "prefix (trace ?w1 @ [SendMessage (removed_message channel_data)]) (trace w2)"
    using send_admin_notification_frame(1,3) [where m = "removed_message channel_data" and w = ?w1] s
    by simp_all
  then obtain t2 where t2: "trace w2 = trace w @ SendMessage (removed_message channel_data) # t2"
    by (auto simp: prefix_def)
  have gone: "cid \<notin> row_id ` set (db w2)"
    using w2(1) by auto
  obtain t3 where t3: "trace (snd (process_removed_channels dbm ids w2)) = trace w2 @ t3"
    using process_removed_channels_trace [of w2 dbm ids] by (auto simp: prefix_def)
  have "cid \<notin> row_id ` set (db (snd (process_removed_channels dbm ids w2)))"
    using gone process_removed_channels_db [of dbm ids w2] by auto
  then show ?thesis
    unfolding step using gone t2 t3 by (cases r) simp_all
qed

lemma handle_chat_action_left:
  assumes "distinct (map row_id (db w))" and "r \<in> set (db w)"
    and "user_id e = me" and "\<not> user_added e" and "\<not> user_joined e"
    and "user_left e \<or> user_kicked e" and "is_channel e" and "chat_id e = row_id r"
  shows "handle_chat_action me e w =
     send_admin_notification (left_message (row_id r) (Some r))
       (w\<lparr>db := filter (\<lambda>c. row_id c \<noteq> row_id r) (db w)\<rparr>)"
proof -
  have rm: "remove_channel_from_db (row_id r) w
              = (True, w\<lparr>db := filter (\<lambda>c. row_id c \<noteq> row_id r) (db w)\<rparr>)"
    using assms(2) by (auto simp: remove_channel_from_db_def list_ex_iff)
  have f: "find (\<lambda>c. row_id c = row_id r) (db w) = Some r"
    using assms(1,2) by (rule find_distinct)
  show ?thesis
    using assms(3-8) by (simp add: handle_chat_action_def Let_def get_all_channels_from_db_def rm f)
qed

lemma removed_message_contains:
  "sublist (title r) (removed_message r)"
  "sublist (str_int (subscribers r)) (removed_message r)"
proof -
  show "sublist (title r) (removed_message r)"
    unfolding sublist_def removed_message_def
    by (rule exI [of _ "icon_robot @ '' Removed from channel!\<newline>Title: ''"],
        rule exI [of _ "''\<newline>Last subscribers: '' @ str_int (subscribers r)"]) simp
  show "sublist (str_int (subscribers r)) (removed_message r)"
    unfolding sublist_def removed_message_def
    by (rule exI [of _ "icon_robot @ '' Removed from channel!\<newline>Title: '' @ title r
          @ ''\<newline>Last subscribers: ''"], rule exI [of _ "[]"]) simp
qed

lemma left_message_contains:
  "sublist (title r) (left_message cid (Some r))"
  "sublist (str_int (subscribers r)) (left_message cid (Some r))"
  "sublist (str_opt (link r)) (left_message cid (Some r))"
proof -
  show "sublist (title r) (left_message cid (Some r))"
    unfolding sublist_def left_message_def
    by (rule exI [of _ "icon_robot @ '' Removed from channel!\<newline>ID: '' @ str_int cid @ ''\<newline>Title: ''"],
        rule exI [of _ "''\<newline>Subscribers: '' @ str_int (subscribers r) @ ''\<newline>Link: '' @ str_opt (link r)"])
      simp
  show "sublist (str_int (subscribers r)) (left_message cid (Some r))"
    unfolding sublist_def left_message_def
    by (rule exI [of _ "icon_robot @ '' Removed from channel!\<newline>ID: '' @ str_int cid @ ''\<newline>Title: ''
          @ title r @ ''\<newline>Subscribers: ''"],
        rule exI [of _ "''\<newline>Link: '' @ str_opt (link r)"])
      simp
  show "sublist (str_opt (link r)) (left_message cid (Some r))"
    unfolding sublist_def left_message_def
    by (rule exI [of _ "icon_robot @ '' Removed from channel!\<newline>ID: '' @ str_int cid @ ''\<newline>Title: ''
          @ title r @ ''\<newline>Subscribers: '' @ str_int (subscribers r) @ ''\<newline>Link: ''"],
        rule exI [of _ "[]"])
      simp
qed

section \<open>Running the reconciliation again\<close>

lemma set_minus_empty: "set xs \<subseteq> set ys \<Longrightarrow> set_minus xs ys = []"
  by (auto simp: set_minus_def filter_empty_conv)

section \<open>The range command and failing fetches\<close>

lemma row_ids_insert_or_replace:
  "row_id ` set (insert_or_replace r rows) = insert (row_id r) (row_id ` set rows)"
  by (auto simp: insert_or_replace_def set_insort_key)

lemma add_info_to_db_simps [simp]:
  "fst (add_info_to_db i w) = True"
  "row_id ` set (db (snd (add_info_to_db i w))) = insert (info_id i) (row_id ` set (db w))"
  "gateway (snd (add_info_to_db i w)) = gateway w"
  "trace (snd (add_info_to_db i w)) = trace w"
  "sender (snd (add_info_to_db i w)) = sender w"
  by (simp_all add: add_info_to_db_def add_channel_to_db_def row_ids_insert_or_replace)

lemma get_channel_info_answer:
  assumes "gateway w p = s # rest" and "\<forall>n. s \<noteq> Raise_FloodWaitError n"
  shows "fst (get_channel_info p w) = Return (fetch_answer p s)"
    and "gateway (snd (get_channel_info p w)) = (gateway w)(p := rest)"
    and "db (snd (get_channel_info p w)) = db w"
  using get_channel_info_from_floods [OF assms(2), of "[]" rest p w] assms(1)
    get_channel_info_frame(1) [of p w]
  by (simp_all add: get_channel_info_def)

lemma add_range_try_answer:
  assumes "gateway w (PeerId c) = s # rest" and "\<forall>n. s \<noteq> Raise_FloodWaitError n"
  shows "fst (add_range_try c k w)
           = Return (case fetched (fetch_answer (PeerId c) s) of Some i \<Rightarrow> k + 1 | None \<Rightarrow> k)"
    and "row_id ` set (db (snd (add_range_try c k w)))
           = (case fetched (fetch_answer (PeerId c) s) of
                Some i \<Rightarrow> insert (info_id i) (row_id ` set (db w))
              | None \<Rightarrow> row_id ` set (db w))"
    and "gateway (snd (add_range_try c k w)) = (gateway w)(PeerId c := rest)"
proof -
  obtain r w1 where g: "get_channel_info (PeerId c) w = (r, w1)"
    by (cases "get_channel_info (PeerId c) w")
  have r: "r = Return (fetch_answer (PeerId c) s)"
    and w1: "gateway w1 = (gateway w)(PeerId c := rest)" "db w1 = db w"
    using get_channel_info_answer [OF assms] g by simp_all
  show "fst (add_range_try c k w)
           = Return (case fetched (fetch_answer (PeerId c) s) of Some i \<Rightarrow> k + 1 | None \<Rightarrow> k)"
    "row_id ` set (db (snd (add_range_try c k w)))
           = (case fetched (fetch_answer (PeerId c) s) of
                Some i \<Rightarrow> insert (info_id i) (row_id ` set (db w))
              | None \<Rightarrow> row_id ` set (db w))"
    "gateway (snd (add_range_try c k w)) = (gateway w)(PeerId c := rest)"
    unfolding add_range_try_def g r
    using w1
    by (cases "fetch_answer (PeerId c) s" rule: fetched.cases;
        simp add: add_info_to_db_def add_channel_to_db_def row_ids_insert_or_replace)+
qed

lemma add_range_loop_result:
  assumes "distinct (map snd cs)"
    and "\<forall>c \<in> snd ` set cs. c \<noteq> admin \<longrightarrow>
           gateway w (PeerId c) = ans c # rest c \<and> (\<forall>n. ans c \<noteq> Raise_FloodWaitError n)"
  shows "fst (add_range_loop pct admin tot cs k w)
           = Return (k + int (length (filter
               (\<lambda>c. c \<noteq> admin \<and> fetched (fetch_answer (PeerId c) (ans c)) \<noteq> None) (map snd cs))))
       \<and> row_id ` set (db (snd (add_range_loop pct admin tot cs k w)))
           = row_id ` set (db w)
             \<union> {info_id i | c i. c \<in> snd ` set cs \<and> c \<noteq> admin
                    \<and> fetched (fetch_answer (PeerId c) (ans c)) = Some i}"
  using assms
proof (induction cs arbitrary: k w)
  case Nil
  show ?case by simp
next
  case (Cons ic cs)
  obtain i c where ic: "ic = (i, c)" by (cases ic)
  have d: "distinct (map snd cs)" and nc: "c \<notin> snd ` set cs"
    using Cons.prems(1) ic by auto
  let ?P = "\<lambda>c. c \<noteq> admin \<and> fetched (fetch_answer (PeerId c) (ans c)) \<noteq> None"
  let ?S = "\<lambda>xs. {info_id i | c i. c \<in> snd ` set xs \<and> c \<noteq> admin
                    \<and> fetched (fetch_answer (PeerId c) (ans c)) = Some i}"
  show ?case
  proof (cases "c = admin")
    case True
    have "\<forall>c \<in> snd ` set cs. c \<noteq> admin \<longrightarrow>
           gateway w (PeerId c) = ans c # rest c \<and> (\<forall>n. ans c \<noteq> Raise_FloodWaitError n)"
      using Cons.prems(2) by simp
    note ih = Cons.IH [OF d this, of k]
    have step: "add_range_loop pct admin tot (ic # cs) k w = add_range_loop pct admin tot cs k w"
      unfolding ic using True by simp
    have f: "filter ?P (map snd (ic # cs)) = filter ?P (map snd cs)"
      using True ic by simp
    have s: "?S (ic # cs) = ?S cs"
      using True ic by auto
    show ?thesis
      unfolding step f s by (rule ih)
  next
    case False
    have g: "gateway w (PeerId c) = ans c # rest c" "\<forall>n. ans c \<noteq> Raise_FloodWaitError n"
      using Cons.prems(2) ic False by auto
    let ?a = "fetched (fetch_answer (PeerId c) (ans c))"
    let ?k1 = "case ?a of Some i \<Rightarrow> k + 1 | None \<Rightarrow> k"
    let ?new = "case ?a of Some i \<Rightarrow> {info_id i} | None \<Rightarrow> {}"
    note t = add_range_try_answer [OF g, of k]
    obtain w1 where tr: "add_range_try c k w = (Return ?k1, w1)"
      using t(1) by (cases "add_range_try c k w") simp
    have w1: "snd (add_range_try c k w) = w1"
      by (simp add: tr)
    let ?w2 = "if i mod 50 = 0 \<or> int i = tot - 1
               then log_event (EditProgress (progress_message tot (pct (int i + 1) tot) (int i + 1) ?k1)) w1
               else w1"
    let ?w3 = "if i mod 10 = 0 then asyncio_sleep (1 / 2) ?w2 else ?w2"
    have step: "add_range_loop pct admin tot (ic # cs) k w = add_range_loop pct admin tot cs ?k1 ?w3"
      unfolding ic using False by (simp add: tr Let_def)
    have db3: "db ?w3 = db w1" and gw3: "gateway ?w3 = (gateway w)(PeerId c := rest c)"
      using t(3) [unfolded w1] by simp_all
    have "\<forall>c' \<in> snd ` set cs. c' \<noteq> admin \<longrightarrow>
           gateway ?w3 (PeerId c') = ans c' # rest c' \<and> (\<forall>n. ans c' \<noteq> Raise_FloodWaitError n)"
      unfolding gw3 using Cons.prems(2) nc by auto
    note ih = Cons.IH [OF d this, of ?k1]
    have cnt: "k + int (length (filter ?P (map snd (ic # cs))))
                 = ?k1 + int (length (filter ?P (map snd cs)))"
      using False ic by (cases ?a) simp_all
    have S: "?S (ic # cs) = ?new \<union> ?S cs"
      using False ic by (cases ?a) auto
    have D: "row_id ` set (db ?w3) = row_id ` set (db w) \<union> ?new"
      unfolding db3 t(2) [unfolded w1] by (cases ?a) simp_all
    have 1: "fst (add_range_loop pct admin tot cs ?k1 ?w3)
               = Return (k + int (length (filter ?P (map snd (ic # cs)))))"
      unfolding cnt by (rule ih [THEN conjunct1])
    have 2: "row_id ` set (db (snd (add_range_loop pct admin tot cs ?k1 ?w3)))
               = row_id ` set (db w) \<union> ?S (ic # cs)"
      unfolding S ih [THEN conjunct2] D by (rule Un_assoc)
    show ?thesis
      unfolding step using 1 2 by (rule conjI)
  qed
qed

lemma if_min_max:
  "(if s > e then e else s) = min s (e::int)" "(if s > e then s else e) = max s (e::int)"
  by (simp_all add: min_def max_def)

text \<open>
  Claim C8. The range command goes through the whole inclusive range whatever the single
  fetches answer: when every id of the range other than the operator's has an answer that
  is not a flood wait, the command returns, its last message reports the size of the range
  as processed and the number of successfully fetched ids as added, and exactly those
  channels are written to the store. For the range from 100 to 104 with 102 not
  accessible this is 5 processed, 4 added, and the rows 100, 101, 103 and 104.
\<close>

theorem add_range_tolerates_failures:
  assumes "\<forall>c \<in> {min s e..max s e}. c \<noteq> admin \<longrightarrow>
             gateway w (PeerId c) = ans c # rest c \<and> (\<forall>n. ans c \<noteq> Raise_FloodWaitError n)"
  shows "fst (add_range_command pct admin s e w) = Return ()
       \<and> last (trace (snd (add_range_command pct admin s e w)))
           = Respond (complete_message (max s e - min s e + 1)
               (int (length (filter (\<lambda>c. c \<noteq> admin \<and> fetched (fetch_answer (PeerId c) (ans c)) \<noteq> None)
                               [min s e..max s e]))))
       \<and> row_id ` set (db (snd (add_range_command pct admin s e w)))
           = row_id ` set (db w)
             \<union> set (map info_id (List.map_filter (\<lambda>c. fetched (fetch_answer (PeerId c) (ans c)))
                                   (filter (\<lambda>c. c \<noteq> admin) [min s e..max s e])))"
proof -
  let ?lo = "min s e" and ?hi = "max s e"
  let ?tot = "?hi - ?lo + 1"
  let ?w0 = "log_event (Respond (start_message ?tot)) w"
  let ?cs = "List.enumerate 0 [?lo..?hi]"
  let ?n = "int (length (filter (\<lambda>c. c \<noteq> admin \<and> fetched (fetch_answer (PeerId c) (ans c)) \<noteq> None)
                               [?lo..?hi]))"
  have cs1: "map snd ?cs = [?lo..?hi]"
    by simp
  have cs2: "snd ` set ?cs = {?lo..?hi}"
    unfolding set_map [symmetric] cs1 by simp
  note cs = cs1 cs2
  have d: "distinct (map snd ?cs)"
    unfolding cs by simp
  have g: "\<forall>c \<in> snd ` set ?cs. c \<noteq> admin \<longrightarrow>
             gateway ?w0 (PeerId c) = ans c # rest c \<and> (\<forall>n. ans c \<noteq> Raise_FloodWaitError n)"
    unfolding cs using assms by simp
  note l = add_range_loop_result [OF d g, of pct ?tot 0, unfolded cs]
  obtain w1 where loop: "add_range_loop pct admin ?tot ?cs 0 ?w0 = (Return ?n, w1)"
    using l [THEN conjunct1] by (cases "add_range_loop pct admin ?tot ?cs 0 ?w0") simp
  have cmd: "add_range_command pct admin s e w
               = (Return (), log_event (Respond (complete_message ?tot ?n)) w1)"
    unfolding add_range_command_def Let_def if_min_max loop
    by simp
  have ids: "{info_id i | c i. c \<in> {?lo..?hi} \<and> c \<noteq> admin
                  \<and> fetched (fetch_answer (PeerId c) (ans c)) = Some i}
             = set (map info_id (List.map_filter (\<lambda>c. fetched (fetch_answer (PeerId c) (ans c)))
                                   (filter (\<lambda>c. c \<noteq> admin) [?lo..?hi])))"
    by (auto simp: map_filter_def image_iff) (force, blast)
  have "row_id ` set (db w1) = row_id ` set (db w)
             \<union> set (map info_id (List.map_filter (\<lambda>c. fetched (fetch_answer (PeerId c) (ans c)))
                                   (filter (\<lambda>c. c \<noteq> admin) [?lo..?hi])))"
    using l [THEN conjunct2] unfolding loop ids by simp
  then show ?thesis
    unfolding cmd by simp
qed

lemma range_100_104: "[min 100 104..max 100 (104::int)] = [100, 101, 102, 103, 104]"
  by (simp add: upto.simps)

lemma complete_message_5_4:
  "complete_message 5 4
     = icon_check @ '' Range processing complete!\<newline>Total processed: 5\<newline>Channels added: 4''"
  by (simp add: complete_message_def str_int_def digits.simps)

theorem add_range_tolerates_failures_witness:
  "fst (add_range_command exact_percent 1 100 104 range_world) = Return ()
   \<and> last (trace (snd (add_range_command exact_percent 1 100 104 range_world)))
       = Respond (icon_check @ '' Range processing complete!\<newline>Total processed: 5\<newline>Channels added: 4'')
   \<and> row_id ` set (db (snd (add_range_command exact_percent 1 100 104 range_world)))
       = {100, 101, 103, 104}"
proof -
  let ?ans = "\<lambda>c. if c = 102 then Raise_ChannelPrivateError
                   else Entity_Channel (example_channel c ''T'') (Participants 10)"
  have h: "\<forall>c \<in> {min 100 104..max 100 104}. c \<noteq> 1 \<longrightarrow>
             gateway range_world (PeerId c) = ?ans c # (\<lambda>c. []) c
             \<and> (\<forall>n. ?ans c \<noteq> Raise_FloodWaitError n)"
    by (simp add: range_world_def range_gateway_def)
  note t = add_range_tolerates_failures [OF h, of exact_percent, unfolded range_100_104]
  have n: "int (length (filter (\<lambda>c. c \<noteq> 1 \<and> fetched (fetch_answer (PeerId c) (?ans c)) \<noteq> None)
             [100, 101, 102, 103, 104])) = 4"
    by (simp add: error_dict_def)
  have i: "set (map info_id (List.map_filter (\<lambda>c. fetched (fetch_answer (PeerId c) (?ans c)))
             (filter (\<lambda>c. c \<noteq> 1) [100, 101, 102, 103, 104]))) = {100, 101, 103, 104}"
    by (simp add: error_dict_def map_filter_def channel_dict_def example_channel_def)
  have d: "row_id ` set (db range_world) = {}" "max 100 104 - min 100 104 + 1 = (5::int)"
    by (simp_all add: range_world_def example_world_def)
  show ?thesis
    using t [THEN conjunct1] t [THEN conjunct2, THEN conjunct1] t [THEN conjunct2, THEN conjunct2]
    unfolding n i d complete_message_5_4
    by simp
qed

section \<open>The pause of the refresh\<close>

lemma refresh_one_not_accessible:
  assumes "gateway w (PeerId (row_id c)) = [Raise_ChannelPrivateError]"
  shows "refresh_one idx c w
           = (Return (), log_event (GetEntity (PeerId (row_id c)))
                (w\<lparr>gateway := (gateway w)(PeerId (row_id c) := [])\<rparr>))"
  using assms
  by (simp add: refresh_one_def refresh_try_def get_channel_info_def Let_def error_dict_def)

lemma refresh_one_same_count:
  assumes "gateway w (PeerId (row_id c)) = [Entity_Channel e (Participants (subscribers c))]"
  shows "refresh_one idx c w
           = (Return (),
              if idx mod 10 = 0
              then asyncio_sleep 2 (log_event (GetEntity (PeerId (row_id c)))
                     (w\<lparr>gateway := (gateway w)(PeerId (row_id c) := [])\<rparr>))
              else log_event (GetEntity (PeerId (row_id c)))
                     (w\<lparr>gateway := (gateway w)(PeerId (row_id c) := [])\<rparr>))"
  using assms
  by (simp add: refresh_one_def refresh_try_def get_channel_info_def Let_def channel_dict_def)

text \<open>
  Claim C9 fails on the code. Eleven stale channels are refreshed; the fetches of the
  first and of the eleventh (indices 0 and 10, the two at which the loop would pause) are
  refused. All eleven channels are requested and the cycle returns, but the trace holds no
  sleep: the pause is skipped because it stands in the branch of a successful fetch.
\<close>

theorem refresh_pause_skipped:
  "map row_id (channels_to_update stale_world) = [1, 2, 3, 4, 5, 6, 7, 8, 9, 10, 11]
   \<and> fst (refresh_subscribers stale_world) = Return ()
   \<and> fetches (trace (snd (refresh_subscribers stale_world)))
       = map PeerId [1, 2, 3, 4, 5, 6, 7, 8, 9, 10, 11]
   \<and> sleeps (trace (snd (refresh_subscribers stale_world))) = []"
proof -
  have sel: "channels_to_update stale_world
               = map (\<lambda>i. example_row i ''T'' 10 0) [1, 2, 3, 4, 5, 6, 7, 8, 9, 10, 11]"
    by (simp add: channels_to_update_def get_all_channels_from_db_def stale_world_def
        example_world_def example_row_def)
  have run: "fst (refresh_subscribers stale_world) = Return ()
      \<and> trace (snd (refresh_subscribers stale_world))
          = map (\<lambda>c. GetEntity (PeerId c)) [1, 2, 3, 4, 5, 6, 7, 8, 9, 10, 11]"
    unfolding refresh_subscribers_def sel
    by (simp add: enumerate_eq_zip upt_rec_numeral refresh_one_def refresh_try_def
        get_channel_info_def Let_def channel_dict_def error_dict_def
        stale_world_def stale_gateway_def example_world_def example_row_def example_channel_def
        log_event_def asyncio_sleep_def)
  show ?thesis
    unfolding run [THEN conjunct2] sel using run [THEN conjunct1] by (simp add: example_row_def)
qed

section \<open>Exceptions in the range command\<close>

text \<open>
  No exception leaves the \<^verbatim>\<open>try\<close> statement of an iteration, hence none leaves the
  loop: the outer handler of the command is never reached.
\<close>

lemma add_range_try_no_raise: "fst (add_range_try c k w) \<noteq> Raise x"
proof -
  obtain r w1 where g: "get_channel_info (PeerId c) w = (r, w1)"
    by (cases "get_channel_info (PeerId c) w")
  show ?thesis
    unfolding add_range_try_def g
    by (simp add: add_info_to_db_def add_channel_to_db_def
        split: outcome.splits option.splits channel_info.splits exn.splits)
qed

lemma add_range_loop_no_raise: "fst (add_range_loop pct admin tot cs k w) \<noteq> Raise x"
proof (induction cs arbitrary: k w)
  case Nil
  show ?case by simp
next
  case (Cons ic cs)
  obtain i c where ic: "ic = (i, c)" by (cases ic)
  obtain r w1 where t: "add_range_try c k w = (r, w1)"
    by (cases "add_range_try c k w")
  have "r \<noteq> Raise x" for x
    using add_range_try_no_raise [of c k w x] t by simp
  then show ?case
    unfolding ic using Cons.IH
    by (cases r) (simp_all add: t Let_def)
qed

lemma add_range_command_no_raise: "fst (add_range_command pct admin s e w) \<noteq> Raise x"
proof -
  let ?lo = "if s > e then e else s" and ?hi = "if s > e then s else e"
  let ?w0 = "log_event (Respond (start_message (?hi - ?lo + 1))) w"
  obtain r w1 where l: "add_range_loop pct admin (?hi - ?lo + 1) (List.enumerate 0 [?lo..?hi]) 0 ?w0 = (r, w1)"
    by (cases "add_range_loop pct admin (?hi - ?lo + 1) (List.enumerate 0 [?lo..?hi]) 0 ?w0")
  have "r \<noteq> Raise x" for x
    using add_range_loop_no_raise [of pct admin "?hi - ?lo + 1" "List.enumerate 0 [?lo..?hi]" 0 ?w0 x] l
    by simp
  then show ?thesis
    unfolding add_range_command_def Let_def l by (cases r) simp_all
qed

section \<open>Flood waits and retries\<close>

lemma sleeps_flood_events:
  "sleeps (concat (map (\<lambda>n. [GetEntity p, Sleep (real_of_int n)]) secs) @ [GetEntity p])
     = map real_of_int secs"
  by (induction secs) simp_all

lemma fetches_flood_events:
  "fetches (concat (map (\<lambda>n. [GetEntity p, Sleep (real_of_int n)]) secs) @ [GetEntity p])
     = replicate (length secs + 1) p"
  by (induction secs) simp_all

text \<open>
  Claim C7, as amended. Each \<^verbatim>\<open>FloodWaitError\<close> that \<^verbatim>\<open>client.get_entity\<close> raises makes
  \<^verbatim>\<open>get_channel_info\<close> sleep exactly its seconds and then ask again for the same peer,
  once per such flood wait: when the lookup is answered \<open>k\<close> times with a flood wait and
  then with something else, there are \<open>k\<close> sleeps, of the indicated lengths and in that
  order, and \<open>k + 1\<close> requests, all for this peer; the last answer is returned and neither
  the store nor the notifier is touched. A \<^verbatim>\<open>FloodWaitError\<close> that
  \<^verbatim>\<open>GetFullChannelRequest\<close> raises is no case of this rule: it adds no sleep and no
  request, and the dictionary of the channel is returned with the subscriber count 0. With
  a single flood wait of 3 from the lookup this is one sleep of 3 and one retry.
\<close>

theorem flood_wait_retry:
  assumes "gateway w p = map Raise_FloodWaitError secs @ s # rest"
    and "\<forall>n. s \<noteq> Raise_FloodWaitError n"
  shows "fst (get_channel_info p w) = Return (fetch_answer p s)
   \<and> trace (snd (get_channel_info p w))
       = trace w @ concat (map (\<lambda>n. [GetEntity p, Sleep (real_of_int n)]) secs) @ [GetEntity p]
   \<and> sleeps (new_events w (snd (get_channel_info p w))) = map real_of_int secs
   \<and> fetches (new_events w (snd (get_channel_info p w))) = replicate (length secs + 1) p
   \<and> clock (snd (get_channel_info p w)) = clock w + real_of_int (sum_list secs)
   \<and> gateway (snd (get_channel_info p w)) = (gateway w)(p := rest)
   \<and> db (snd (get_channel_info p w)) = db w
   \<and> sender (snd (get_channel_info p w)) = sender w
   \<and> (\<forall>e n. s = Entity_Channel e (Full_FloodWaitError n) \<longrightarrow>
         fst (get_channel_info p w) = Return (Some (InfoOk (channel_dict e (Full_FloodWaitError n))))
         \<and> info_subscribers (channel_dict e (Full_FloodWaitError n)) = 0)"
proof -
  note f = get_channel_info_from_floods [OF assms(2), of secs rest p w]
  have r: "fst (get_channel_info p w) = Return (fetch_answer p s)"
    and t: "trace (snd (get_channel_info p w))
       = trace w @ concat (map (\<lambda>n. [GetEntity p, Sleep (real_of_int n)]) secs) @ [GetEntity p]"
    and c: "clock (snd (get_channel_info p w)) = clock w + real_of_int (sum_list secs)"
    and g: "gateway (snd (get_channel_info p w)) = (gateway w)(p := rest)"
    using f assms(1) by (simp_all add: get_channel_info_def)
  have n: "new_events w (snd (get_channel_info p w))
       = concat (map (\<lambda>n. [GetEntity p, Sleep (real_of_int n)]) secs) @ [GetEntity p]"
    using t by (rule new_events_append)
  have z: "\<forall>e n. s = Entity_Channel e (Full_FloodWaitError n) \<longrightarrow>
         fst (get_channel_info p w) = Return (Some (InfoOk (channel_dict e (Full_FloodWaitError n))))
         \<and> info_subscribers (channel_dict e (Full_FloodWaitError n)) = 0"
    unfolding r by (simp add: channel_dict_def)
  show ?thesis
    unfolding n sleeps_flood_events fetches_flood_events
    using r t c g z get_channel_info_frame(1,2) [of p w]
    by blast
qed

theorem flood_wait_retry_witness:
  "trace (snd (get_channel_info (PeerId 7)
      ((example_world [])\<lparr>gateway := no_gateway(PeerId 7 :=
          [Raise_FloodWaitError 3, Entity_Channel (example_channel 7 ''A'') (Participants 10)])\<rparr>)))
     = [GetEntity (PeerId 7), Sleep 3, GetEntity (PeerId 7)]
   \<and> fst (get_channel_info (PeerId 7)
      ((example_world [])\<lparr>gateway := no_gateway(PeerId 7 :=
          [Raise_FloodWaitError 3, Entity_Channel (example_channel 7 ''A'') (Participants 10)])\<rparr>))
     = Return (Some (InfoOk (channel_dict (example_channel 7 ''A'') (Participants 10))))
   \<and> trace (snd (get_channel_info (PeerId 7) count_flood_world)) = [GetEntity (PeerId 7)]
   \<and> sleeps (new_events count_flood_world (snd (get_channel_info (PeerId 7) count_flood_world))) = []
   \<and> fst (get_channel_info (PeerId 7) count_flood_world)
     = Return (Some (InfoOk (channel_dict (example_channel 7 ''A'') (Full_FloodWaitError 9))))
   \<and> info_subscribers (channel_dict (example_channel 7 ''A'') (Full_FloodWaitError 9)) = 0"
proof -
  let ?w = "(example_world [])\<lparr>gateway := no_gateway(PeerId 7 :=
          [Raise_FloodWaitError 3, Entity_Channel (example_channel 7 ''A'') (Participants 10)])\<rparr>"
  have a1: "gateway ?w (PeerId 7)
      = map Raise_FloodWaitError [3] @ Entity_Channel (example_channel 7 ''A'') (Participants 10) # []"
    by simp
  have a2: "\<forall>n. Entity_Channel (example_channel 7 ''A'') (Participants 10) \<noteq> Raise_FloodWaitError n"
    by simp
  have b1: "gateway count_flood_world (PeerId 7)
      = map Raise_FloodWaitError [] @ Entity_Channel (example_channel 7 ''A'') (Full_FloodWaitError 9) # []"
    by (simp add: count_flood_world_def)
  have b2: "\<forall>n. Entity_Channel (example_channel 7 ''A'') (Full_FloodWaitError 9) \<noteq> Raise_FloodWaitError n"
    by simp
  note a = flood_wait_retry [OF a1 a2]
  note b = flood_wait_retry [OF b1 b2]
  have tw: "trace ?w = []" "trace count_flood_world = []"
    by (simp_all add: example_world_def count_flood_world_def)
  show ?thesis
    using a [THEN conjunct1] a [THEN conjunct2, THEN conjunct1]
      b [THEN conjunct1] b [THEN conjunct2, THEN conjunct1]
      b [THEN conjunct2, THEN conjunct2, THEN conjunct1]
    by (simp add: tw channel_dict_def)
qed

text \<open>
  The claim as stated (a single retry) fails when the retry is answered by a flood wait
  again: the function sleeps and retries a second time.
\<close>

theorem single_retry_counterexample:
  "gateway flood_world (PeerId 7) =
     [Raise_FloodWaitError 3, Raise_FloodWaitError 5,
      Entity_Channel (example_channel 7 ''A'') (Participants 10)]
   \<and> trace (snd (get_channel_info (PeerId 7) flood_world))
     = [GetEntity (PeerId 7), Sleep 3, GetEntity (PeerId 7), Sleep 5, GetEntity (PeerId 7)]
   \<and> trace (snd (get_channel_info (PeerId 7) flood_world))
     \<noteq> [GetEntity (PeerId 7), Sleep 3, GetEntity (PeerId 7)]"
  by (simp add: flood_world_def example_world_def get_channel_info_def Let_def)

section \<open>Every removal of the polling cycle\<close>

lemma db_map_None: "db_map rows c = None \<longleftrightarrow> c \<notin> row_id ` set rows"
  by (simp add: db_map_def map_of_eq_None_iff image_image)

lemma process_removed_channels_step_none:
  "dbm cid = None \<Longrightarrow>
   process_removed_channels dbm (cid # ids) w = process_removed_channels dbm ids w"
  by simp

lemma process_removed_channels_step_absent:
  assumes "dbm cid = Some cd" and "cid \<notin> row_id ` set (db w)"
  shows "process_removed_channels dbm (cid # ids) w
           = process_removed_channels dbm ids (w\<lparr>db := filter (\<lambda>r. row_id r \<noteq> cid) (db w)\<rparr>)"
    and "filter (\<lambda>r. row_id r \<noteq> cid) (db w) = db w"
proof -
  show f: "filter (\<lambda>r. row_id r \<noteq> cid) (db w) = db w"
    using assms(2) by (auto simp: filter_id_conv)
  have "remove_channel_from_db cid w = (False, w\<lparr>db := filter (\<lambda>r. row_id r \<noteq> cid) (db w)\<rparr>)"
    using assms(2) by (auto simp: remove_channel_from_db_def list_ex_iff)
  then show "process_removed_channels dbm (cid # ids) w
           = process_removed_channels dbm ids (w\<lparr>db := filter (\<lambda>r. row_id r \<noteq> cid) (db w)\<rparr>)"
    using assms(1) by simp
qed

lemma process_removed_channels_step_present:
  assumes "dbm cid = Some cd" and "cid \<in> row_id ` set (db w)"
    and "send_admin_notification (removed_message cd)
           (w\<lparr>db := filter (\<lambda>r. row_id r \<noteq> cid) (db w)\<rparr>) = (r, w2)"
  shows "process_removed_channels dbm (cid # ids) w =
      (case r of Return u \<Rightarrow> process_removed_channels dbm ids w2
       | Raise x \<Rightarrow> (Raise x, w2) | Hang \<Rightarrow> (Hang, w2))"
    and "db w2 = filter (\<lambda>r. row_id r \<noteq> cid) (db w)"
    and "\<exists>t2. trace w2 = trace w @ SendMessage (removed_message cd) # t2"
proof -
  let ?w1 = "w\<lparr>db := filter (\<lambda>r. row_id r \<noteq> cid) (db w)\<rparr>"
  have rm: "remove_channel_from_db cid w = (True, ?w1)"
    using assms(2) by (auto simp: remove_channel_from_db_def list_ex_iff)
  show "process_removed_channels dbm (cid # ids) w =
      (case r of Return u \<Rightarrow> process_removed_channels dbm ids w2
       | Raise x \<Rightarrow> (Raise x, w2) | Hang \<Rightarrow> (Hang, w2))"
    using assms(1) by (simp add: rm assms(3))
  have w2: "db w2 = db ?w1" "prefix (trace ?w1 @ [SendMessage (removed_message cd)]) (trace w2)"
    using send_admin_notification_frame(1,3) [where m = "removed_message cd" and w = ?w1] assms(3)
    by simp_all
  show "db w2 = filter (\<lambda>r. row_id r \<noteq> cid) (db w)"
    using w2(1) by simp
  show "\<exists>t2. trace w2 = trace w @ SendMessage (removed_message cd) # t2"
    using w2(2) by (auto simp: prefix_def)
qed

lemma process_removed_channels_inv:
  "\<exists>t. trace (snd (process_removed_channels dbm ids w)) = trace w @ t
     \<and> (\<forall>c. c \<in> row_id ` set (db w) \<longrightarrow>
             c \<notin> row_id ` set (db (snd (process_removed_channels dbm ids w))) \<longrightarrow>
             c \<in> set ids \<and> (\<exists>r. dbm c = Some r \<and> SendMessage (removed_message r) \<in> set t))
     \<and> (fst (process_removed_channels dbm ids w) = Return () \<longrightarrow>
           (\<forall>c \<in> set ids. dbm c \<noteq> None \<longrightarrow>
              c \<notin> row_id ` set (db (snd (process_removed_channels dbm ids w)))))"
proof (induction ids arbitrary: w)
  case Nil
  show ?case by simp
next
  case (Cons cid ids)
  show ?case
  proof (cases "dbm cid")
    case None
    obtain t where t: "trace (snd (process_removed_channels dbm ids w)) = trace w @ t"
      "\<forall>c. c \<in> row_id ` set (db w) \<longrightarrow>
             c \<notin> row_id ` set (db (snd (process_removed_channels dbm ids w))) \<longrightarrow>
             c \<in> set ids \<and> (\<exists>r. dbm c = Some r \<and> SendMessage (removed_message r) \<in> set t)"
      "fst (process_removed_channels dbm ids w) = Return () \<longrightarrow>
           (\<forall>c \<in> set ids. dbm c \<noteq> None \<longrightarrow>
              c \<notin> row_id ` set (db (snd (process_removed_channels dbm ids w))))"
      using Cons [of w] by blast
    show ?thesis
      unfolding process_removed_channels_step_none [where dbm = dbm and cid = cid, OF None]
      using t None by (intro exI [of _ t]) auto
  next
    case (Some cd)
    let ?w1 = "w\<lparr>db := filter (\<lambda>r. row_id r \<noteq> cid) (db w)\<rparr>"
    show ?thesis
    proof (cases "cid \<in> row_id ` set (db w)")
      case False
      note s = process_removed_channels_step_absent(1) [where dbm = dbm and cid = cid and ids = ids, OF Some False]
        process_removed_channels_step_absent(2) [where dbm = dbm and cid = cid, OF Some False]
      have w1: "db ?w1 = db w" "trace ?w1 = trace w"
        using s(2) by simp_all
      obtain t where t: "trace (snd (process_removed_channels dbm ids ?w1)) = trace w @ t"
        "\<forall>c. c \<in> row_id ` set (db w) \<longrightarrow>
             c \<notin> row_id ` set (db (snd (process_removed_channels dbm ids ?w1))) \<longrightarrow>
             c \<in> set ids \<and> (\<exists>r. dbm c = Some r \<and> SendMessage (removed_message r) \<in> set t)"
        "fst (process_removed_channels dbm ids ?w1) = Return () \<longrightarrow>
           (\<forall>c \<in> set ids. dbm c \<noteq> None \<longrightarrow>
              c \<notin> row_id ` set (db (snd (process_removed_channels dbm ids ?w1))))"
        using Cons [of ?w1] unfolding w1 by blast
      have sub: "set (db (snd (process_removed_channels dbm ids ?w1))) \<subseteq> set (db w)"
        using process_removed_channels_db [of dbm ids ?w1] unfolding w1 .
      have gone: "cid \<notin> row_id ` set (db (snd (process_removed_channels dbm ids ?w1)))"
        using sub False by blast
      show ?thesis
        unfolding s(1)
        using t gone by (intro exI [of _ t]) auto
    next
      case True
      obtain r w2 where snd: "send_admin_notification (removed_message cd) ?w1 = (r, w2)"
        by (cases "send_admin_notification (removed_message cd) ?w1")
      note s = process_removed_channels_step_present(1) [where dbm = dbm and cid = cid and ids = ids, OF Some True snd]
        process_removed_channels_step_present(2) [where dbm = dbm and cid = cid, OF Some True snd]
        process_removed_channels_step_present(3) [where dbm = dbm and cid = cid, OF Some True snd]
      obtain t2 where t2: "trace w2 = trace w @ SendMessage (removed_message cd) # t2"
        using s(3) by blast
      have gone2: "cid \<notin> row_id ` set (db w2)"
        unfolding s(2) by auto
      have keep2: "c \<in> row_id ` set (db w2)" if "c \<in> row_id ` set (db w)" "c \<noteq> cid" for c
        unfolding s(2) using that by auto
      show ?thesis
      proof (cases r)
        case (Return u)
        have step: "process_removed_channels dbm (cid # ids) w = process_removed_channels dbm ids w2"
          using s(1) Return by simp
        obtain t3 where t3: "trace (snd (process_removed_channels dbm ids w2)) = trace w2 @ t3"
          "\<forall>c. c \<in> row_id ` set (db w2) \<longrightarrow>
             c \<notin> row_id ` set (db (snd (process_removed_channels dbm ids w2))) \<longrightarrow>
             c \<in> set ids \<and> (\<exists>r. dbm c = Some r \<and> SendMessage (removed_message r) \<in> set t3)"
          "fst (process_removed_channels dbm ids w2) = Return () \<longrightarrow>
           (\<forall>c \<in> set ids. dbm c \<noteq> None \<longrightarrow>
              c \<notin> row_id ` set (db (snd (process_removed_channels dbm ids w2))))"
          using Cons [of w2] by blast
        have sub: "set (db (snd (process_removed_channels dbm ids w2))) \<subseteq> set (db w2)"
          by (rule process_removed_channels_db)
        have gone: "cid \<notin> row_id ` set (db (snd (process_removed_channels dbm ids w2)))"
          using sub gone2 by blast
        let ?t = "SendMessage (removed_message cd) # t2 @ t3"
        have tr: "trace (snd (process_removed_channels dbm ids w2)) = trace w @ ?t"
          using t3(1) t2 by simp
        have c: "c \<in> set (cid # ids) \<and> (\<exists>r. dbm c = Some r \<and> SendMessage (removed_message r) \<in> set ?t)"
          if "c \<in> row_id ` set (db w)" "c \<notin> row_id ` set (db (snd (process_removed_channels dbm ids w2)))"
          for c
        proof (cases "c = cid")
          case True
          then show ?thesis using Some by simp
        next
          case False
          then show ?thesis
            using t3(2) keep2 [OF that(1) False] that(2) by auto
        qed
        have d: "\<forall>c \<in> set (cid # ids). dbm c \<noteq> None \<longrightarrow>
              c \<notin> row_id ` set (db (snd (process_removed_channels dbm ids w2)))"
          if "fst (process_removed_channels dbm ids w2) = Return ()"
          using t3(3) that gone by auto
        show ?thesis
          unfolding step
          using tr c d by (intro exI [of _ ?t]) blast
      next
        case (Raise x)
        have step: "process_removed_channels dbm (cid # ids) w = (Raise x, w2)"
          using s(1) Raise by simp
        have c: "c \<in> set (cid # ids) \<and> (\<exists>r. dbm c = Some r
                  \<and> SendMessage (removed_message r) \<in> set (SendMessage (removed_message cd) # t2))"
          if "c \<in> row_id ` set (db w)" "c \<notin> row_id ` set (db w2)" for c
          using keep2 [OF that(1)] that(2) Some by auto
        show ?thesis
          unfolding step using t2 c
          by (intro exI [of _ "SendMessage (removed_message cd) # t2"]) simp
      next
        case Hang
        have step: "process_removed_channels dbm (cid # ids) w = (Hang, w2)"
          using s(1) Hang by simp
        have c: "c \<in> set (cid # ids) \<and> (\<exists>r. dbm c = Some r
                  \<and> SendMessage (removed_message r) \<in> set (SendMessage (removed_message cd) # t2))"
          if "c \<in> row_id ` set (db w)" "c \<notin> row_id ` set (db w2)" for c
          using keep2 [OF that(1)] that(2) Some by auto
        show ?thesis
          unfolding step using t2 c
          by (intro exI [of _ "SendMessage (removed_message cd) # t2"]) simp
      qed
    qed
  qed
qed

text \<open>
  A relation between states that holds from a state to itself, composes, and holds across
  a fetch, across a fetch followed by the write of its dictionary, and across a
  notification, holds across the loop over the new channels.
\<close>

lemma process_new_channels_rel:
  assumes refl: "\<And>w. R w w"
    and trans: "\<And>a b c. R a b \<Longrightarrow> R b c \<Longrightarrow> R a c"
    and fetch: "\<And>p w. R w (snd (get_channel_info p w))"
    and add: "\<And>i p w. fst (get_channel_info p w) = Return (Some (InfoOk i)) \<Longrightarrow>
                 R w (snd (add_info_to_db i (snd (get_channel_info p w))))"
    and send: "\<And>m w. R w (snd (send_admin_notification m w))"
  shows "R w (snd (process_new_channels dialogs ids w))"
proof (induction ids arbitrary: w)
  case Nil
  show ?case by (simp add: refl)
next
  case (Cons cid ids)
  show ?case
  proof (cases "find (\<lambda>e. entity_id e = cid) dialogs")
    case None
    then show ?thesis using Cons [of w] by simp
  next
    case (Some entity)
    obtain r w1 where g: "get_channel_info (PeerEntity entity) w = (r, w1)"
      by (cases "get_channel_info (PeerEntity entity) w")
    have w1: "R w w1"
      using fetch [of w "PeerEntity entity"] g by simp
    have rest: "R w (snd (process_new_channels dialogs ids w1))"
      using w1 Cons [of w1] by (rule trans)
    show ?thesis
    proof (cases r)
      case (Return a)
      show ?thesis
      proof (cases a rule: fetched.cases)
        case (1 i)
        let ?w2 = "snd (add_info_to_db i w1)"
        have w2: "R w ?w2"
          using add [of "PeerEntity entity" w i] g Return 1 by simp
        obtain r3 w3 where s: "send_admin_notification (detected_message i) ?w2 = (r3, w3)"
          by (cases "send_admin_notification (detected_message i) ?w2")
        have w3: "R w w3"
          using w2 send [of ?w2 "detected_message i"] s by (auto intro: trans)
        have "R w (snd (process_new_channels dialogs ids w3))"
          using w3 Cons [of w3] by (rule trans)
        then show ?thesis
          using Some g Return 1 s w3 by (cases r3) simp_all
      next
        case (2 e)
        then show ?thesis
          using Some g Return w1 rest by simp
      next
        case 3
        then show ?thesis
          using Some g Return rest by simp
      qed
    next
      case (Raise x)
      then show ?thesis using Some g w1 by simp
    next
      case Hang
      then show ?thesis using Some g w1 by simp
    qed
  qed
qed

lemma process_new_channels_grow:
  "row_id ` set (db w) \<subseteq> row_id ` set (db (snd (process_new_channels dialogs ids w)))
   \<and> prefix (trace w) (trace (snd (process_new_channels dialogs ids w)))"
proof (rule process_new_channels_rel
    [where R = "\<lambda>a b. row_id ` set (db a) \<subseteq> row_id ` set (db b) \<and> prefix (trace a) (trace b)"])
  show "row_id ` set (db w) \<subseteq> row_id ` set (db w) \<and> prefix (trace w) (trace w)" for w
    by simp
  show "row_id ` set (db a) \<subseteq> row_id ` set (db c) \<and> prefix (trace a) (trace c)"
    if "row_id ` set (db a) \<subseteq> row_id ` set (db b) \<and> prefix (trace a) (trace b)"
      "row_id ` set (db b) \<subseteq> row_id ` set (db c) \<and> prefix (trace b) (trace c)" for a b c
    using that by (auto intro: prefix_order.trans)
  show "row_id ` set (db w) \<subseteq> row_id ` set (db (snd (get_channel_info p w)))
      \<and> prefix (trace w) (trace (snd (get_channel_info p w)))" for p w
    by (simp add: get_channel_info_frame)
  show "row_id ` set (db w) \<subseteq> row_id ` set (db (snd (add_info_to_db i (snd (get_channel_info p w)))))
      \<and> prefix (trace w) (trace (snd (add_info_to_db i (snd (get_channel_info p w)))))" for i p w
    by (auto simp: get_channel_info_frame)
  show "row_id ` set (db w) \<subseteq> row_id ` set (db (snd (send_admin_notification m w)))
      \<and> prefix (trace w) (trace (snd (send_admin_notification m w)))" for m w
    using send_admin_notification_frame(3) [of w m]
    by (auto simp: send_admin_notification_frame(1) dest: append_prefixD)
qed

lemma reconcile_membership_removed:
  assumes "distinct (map row_id (db w))" and "r \<in> set (db w)"
  shows "(row_id r \<notin> row_id ` set (db (snd (reconcile_membership dialogs w))) \<longrightarrow>
            row_id r \<in> set (removed_channels dialogs (db w))
            \<and> SendMessage (removed_message r) \<in> set (new_events w (snd (reconcile_membership dialogs w))))
       \<and> (fst (reconcile_membership dialogs w) = Return ()
            \<and> row_id r \<in> set (removed_channels dialogs (db w)) \<longrightarrow>
            row_id r \<notin> row_id ` set (db (snd (reconcile_membership dialogs w))))"
proof -
  let ?new = "new_channels dialogs (db w)" and ?rem = "removed_channels dialogs (db w)"
  let ?dbm = "db_map (db w)"
  obtain r1 w1 where n: "process_new_channels dialogs ?new w = (r1, w1)"
    by (cases "process_new_channels dialogs ?new w")
  have grow: "row_id ` set (db w) \<subseteq> row_id ` set (db w1)" "prefix (trace w) (trace w1)"
    using process_new_channels_grow [of w dialogs ?new] n by simp_all
  then obtain t1 where t1: "trace w1 = trace w @ t1"
    by (auto simp: prefix_def)
  have in1: "row_id r \<in> row_id ` set (db w1)"
    using grow(1) assms(2) by auto
  have m: "?dbm (row_id r) = Some r"
    using assms by (rule db_map_distinct)
  show ?thesis
  proof (cases "r1 = Return ()")
    case True
    have rec: "reconcile_membership dialogs w = process_removed_channels ?dbm ?rem w1"
      by (simp add: reconcile_membership_def get_all_channels_from_db_def Let_def n True)
    obtain t where t: "trace (snd (process_removed_channels ?dbm ?rem w1)) = trace w1 @ t"
      "\<forall>c. c \<in> row_id ` set (db w1) \<longrightarrow>
             c \<notin> row_id ` set (db (snd (process_removed_channels ?dbm ?rem w1))) \<longrightarrow>
             c \<in> set ?rem \<and> (\<exists>r. ?dbm c = Some r \<and> SendMessage (removed_message r) \<in> set t)"
      "fst (process_removed_channels ?dbm ?rem w1) = Return () \<longrightarrow>
           (\<forall>c \<in> set ?rem. ?dbm c \<noteq> None \<longrightarrow>
              c \<notin> row_id ` set (db (snd (process_removed_channels ?dbm ?rem w1))))"
      using process_removed_channels_inv [of ?dbm ?rem w1] by blast
    have ne: "new_events w (snd (process_removed_channels ?dbm ?rem w1)) = t1 @ t"
      using t(1) t1 by (simp add: new_events_def)
    have 1: "row_id r \<in> set ?rem \<and> SendMessage (removed_message r) \<in> set (t1 @ t)"
      if "row_id r \<notin> row_id ` set (db (snd (process_removed_channels ?dbm ?rem w1)))"
      using t(2) in1 that m by auto
    have 2: "row_id r \<notin> row_id ` set (db (snd (process_removed_channels ?dbm ?rem w1)))"
      if "fst (process_removed_channels ?dbm ?rem w1) = Return ()" "row_id r \<in> set ?rem"
      using t(3) that m by auto
    show ?thesis
      unfolding rec ne using 1 2 by blast
  next
    case False
    have rec: "reconcile_membership dialogs w = (r1, w1)"
      using False by (cases r1) (simp_all add: reconcile_membership_def get_all_channels_from_db_def Let_def n)
    show ?thesis
      unfolding rec using in1 False by simp
  qed
qed

text \<open>
  Claim C6, as amended. The polling cycle reads the table before its loops and takes the
  data of every removal notification from that reading. For every row \<open>r\<close> that the
  store holds when the cycle starts: if the id of \<open>r\<close> is gone from the store after the
  cycle, then the id was among the channels to remove and the text passed to
  \<^verbatim>\<open>client.send_message\<close> in this cycle is made of the title and the subscriber count of
  \<open>r\<close> (not its link); and if the cycle returns, every channel to remove is gone from
  the store and has had this notification, whatever was added or removed before it in the
  same cycle. When the bot leaves or is kicked from a tracked channel, the row is read
  before the delete too, and the notification holds its id, title, subscriber count and
  link, and the store has no row of that id afterwards.
\<close>

theorem removal_notification:
  assumes "distinct (map row_id (db w))" and "r \<in> set (db w)"
  shows "(row_id r \<notin> row_id ` set (db (snd (reconcile_membership dialogs w))) \<longrightarrow>
            row_id r \<in> set (removed_channels dialogs (db w))
            \<and> SendMessage (removed_message r) \<in> set (new_events w (snd (reconcile_membership dialogs w))))
       \<and> (fst (reconcile_membership dialogs w) = Return ()
            \<and> row_id r \<in> set (removed_channels dialogs (db w)) \<longrightarrow>
            row_id r \<notin> row_id ` set (db (snd (reconcile_membership dialogs w)))
            \<and> SendMessage (removed_message r) \<in> set (new_events w (snd (reconcile_membership dialogs w))))
       \<and> sublist (title r) (removed_message r)
       \<and> sublist (str_int (subscribers r)) (removed_message r)
       \<and> (user_id e = me \<and> \<not> user_added e \<and> \<not> user_joined e \<and> (user_left e \<or> user_kicked e)
            \<and> is_channel e \<and> chat_id e = row_id r \<longrightarrow>
           (\<exists>t. trace (snd (handle_chat_action me e w))
                   = trace w @ SendMessage (left_message (row_id r) (Some r)) # t)
           \<and> row_id r \<notin> row_id ` set (db (snd (handle_chat_action me e w)))
           \<and> sublist (title r) (left_message (row_id r) (Some r))
           \<and> sublist (str_int (subscribers r)) (left_message (row_id r) (Some r))
           \<and> sublist (str_opt (link r)) (left_message (row_id r) (Some r)))"
proof -
  note poll = reconcile_membership_removed [OF assms, of dialogs]
  have event: "(\<exists>t. trace (snd (handle_chat_action me e w))
                   = trace w @ SendMessage (left_message (row_id r) (Some r)) # t)
           \<and> row_id r \<notin> row_id ` set (db (snd (handle_chat_action me e w)))"
    if e: "user_id e = me" "\<not> user_added e" "\<not> user_joined e" "user_left e \<or> user_kicked e"
      "is_channel e" "chat_id e = row_id r"
  proof -
    let ?w1 = "w\<lparr>db := filter (\<lambda>c. row_id c \<noteq> row_id r) (db w)\<rparr>"
    note h = handle_chat_action_left [OF assms e]
    have "db (snd (handle_chat_action me e w)) = db ?w1"
      "prefix (trace ?w1 @ [SendMessage (left_message (row_id r) (Some r))])
         (trace (snd (handle_chat_action me e w)))"
      unfolding h
      using send_admin_notification_frame(1,3) [where m = "left_message (row_id r) (Some r)" and w = ?w1]
      by simp_all
    then show ?thesis
      by (auto simp: prefix_def)
  qed
  show ?thesis
    using poll event removed_message_contains [of r] left_message_contains [of r "row_id r"]
    by blast
qed

lemma cycle_world_run:
  "reconcile_membership [Channel (example_channel 7 ''A'')] cycle_world =
     (Return (),
      cycle_world\<lparr>db := [\<lparr>row_id = 7, title = ''A'', access_hash = Some 77,
                          link = Some ''https://t.me/c/7'', subscribers = 10, last_checked = 0\<rparr>],
                 gateway := no_gateway(PeerEntity (Channel (example_channel 7 ''A'')) := []),
                 sender := [],
                 trace := [GetEntity (PeerEntity (Channel (example_channel 7 ''A''))),
                           SendMessage (detected_message (channel_dict (example_channel 7 ''A'') (Participants 10))),
                           SendMessage (removed_message (example_row 3 ''C'' 20 0)),
                           SendMessage (removed_message (example_row 5 ''X'' 200 0))]\<rparr>)"
  by (simp add: reconcile_membership_def get_all_channels_from_db_def new_channels_def
        removed_channels_def current_channels_def db_ids_def set_minus_def db_map_def
        cycle_world_def example_world_def example_row_def example_channel_def
        remove_channel_from_db_def add_info_to_db_def add_channel_to_db_def insert_or_replace_def
        get_channel_info_def channel_dict_def Let_def
        send_admin_notification_def client_send_message_def log_event_def
        str_int_def digits.simps)

lemma removal_example_simps:
  "db removal_world = [example_row 5 ''X'' 200 0]"
  "trace removal_world = []"
  "db cycle_world = [example_row 3 ''C'' 20 0, example_row 5 ''X'' 200 0]"
  "row_id (example_row 5 ''X'' 200 0) = 5"
  "title (example_row 5 ''X'' 200 0) = ''X''"
  "str_int (subscribers (example_row 5 ''X'' 200 0)) = ''200''"
  "str_opt (link (example_row 5 ''X'' 200 0)) = ''https://t.me/example''"
  by (simp_all add: removal_world_def cycle_world_def example_world_def example_row_def
      str_int_def digits.simps)

theorem removal_notification_witness:
  "removed_channels [Channel (example_channel 7 ''A'')] (db cycle_world) = [3, 5]
   \<and> 5 \<notin> row_id ` set (db (snd (reconcile_membership [Channel (example_channel 7 ''A'')] cycle_world)))
   \<and> SendMessage (removed_message (example_row 5 ''X'' 200 0))
        \<in> set (new_events cycle_world
              (snd (reconcile_membership [Channel (example_channel 7 ''A'')] cycle_world)))
   \<and> sublist ''X'' (removed_message (example_row 5 ''X'' 200 0))
   \<and> sublist ''200'' (removed_message (example_row 5 ''X'' 200 0))
   \<and> (\<exists>t. trace (snd (handle_chat_action 42 left_event removal_world))
           = SendMessage (left_message 5 (Some (example_row 5 ''X'' 200 0))) # t)
   \<and> 5 \<notin> row_id ` set (db (snd (handle_chat_action 42 left_event removal_world)))
   \<and> sublist ''X'' (left_message 5 (Some (example_row 5 ''X'' 200 0)))
   \<and> sublist ''200'' (left_message 5 (Some (example_row 5 ''X'' 200 0)))
   \<and> sublist ''https://t.me/example'' (left_message 5 (Some (example_row 5 ''X'' 200 0)))"
proof -
  let ?D = "[Channel (example_channel 7 ''A'')]"
  let ?r = "example_row 5 ''X'' 200 0"
  have rem: "removed_channels ?D (db cycle_world) = [3, 5]"
    by (simp add: removed_channels_def current_channels_def db_ids_def set_minus_def
        cycle_world_def example_world_def example_row_def example_channel_def)
  have ret: "fst (reconcile_membership ?D cycle_world) = Return ()"
    unfolding cycle_world_run by simp
  have d1: "distinct (map row_id (db cycle_world))" and m1: "?r \<in> set (db cycle_world)"
    by (simp_all add: removal_example_simps example_row_def)
  have d2: "distinct (map row_id (db removal_world))" and m2: "?r \<in> set (db removal_world)"
    by (simp_all add: removal_example_simps)
  have e: "user_id left_event = 42 \<and> \<not> user_added left_event \<and> \<not> user_joined left_event
      \<and> (user_left left_event \<or> user_kicked left_event) \<and> is_channel left_event
      \<and> chat_id left_event = row_id ?r"
    by (simp add: left_event_def example_row_def)
  have in_rem: "row_id ?r \<in> set (removed_channels ?D (db cycle_world))"
    unfolding rem by (simp add: removal_example_simps)
  note a = removal_notification [OF d1 m1, of ?D, THEN conjunct2, THEN conjunct1, rule_format,
      OF conjI [OF ret in_rem]]
  note b = removal_notification [OF d2 m2, of _ left_event 42, THEN conjunct2, THEN conjunct2]
  show ?thesis
    using rem a b e by (simp add: removal_example_simps)
qed

text \<open>
  The claim as stated fails for the link: the notification of the polling cycle for the
  removed channel 5 is made of the title and the subscriber count only.
\<close>

theorem removal_link_counterexample:
  "link (example_row 5 ''X'' 200 0) = Some ''https://t.me/example''
   \<and> sent_messages (trace (snd (reconcile_membership [] removal_world)))
       = [icon_robot @ '' Removed from channel!\<newline>Title: X\<newline>Last subscribers: 200'']
   \<and> \<not> sublist ''https://t.me/example''
         (icon_robot @ '' Removed from channel!\<newline>Title: X\<newline>Last subscribers: 200'')
   \<and> db (snd (reconcile_membership [] removal_world)) = []"
proof -
  have 1: "\<not> sublist ''https://t.me/example''
         (icon_robot @ '' Removed from channel!\<newline>Title: X\<newline>Last subscribers: 200'')"
    by code_simp
  have 2: "reconcile_membership [] removal_world
      = (Return (), removal_world\<lparr>db := [], sender := [],
           trace := [SendMessage (icon_robot @ '' Removed from channel!\<newline>Title: X\<newline>Last subscribers: 200'')]\<rparr>)"
    by (simp add: reconcile_membership_def get_all_channels_from_db_def new_channels_def
        removed_channels_def current_channels_def db_ids_def set_minus_def db_map_def
        removal_world_def example_world_def example_row_def remove_channel_from_db_def
        send_admin_notification_def client_send_message_def log_event_def removed_message_def
        str_int_def digits.simps)
  show ?thesis
    using 1 unfolding 2 by (simp add: example_row_def)
qed

section \<open>Every write comes from a fetch\<close>

lemma get_channel_info_from_source:
  "(\<forall>q. set (gateway (snd (get_channel_info_from ss p w)) q)
          \<subseteq> set (gateway w q) \<union> (if q = p then set ss else {}))
   \<and> (\<forall>i. fst (get_channel_info_from ss p w) = Return (Some (InfoOk i)) \<longrightarrow>
          (\<exists>e full. Entity_Channel e full \<in> set ss \<and> i = channel_dict e full))"
proof (induction ss arbitrary: w)
  case Nil
  show ?case by simp
next
  case (Cons s ss)
  show ?case
  proof (cases s)
    case (Raise_FloodWaitError secs)
    let ?w1 = "asyncio_sleep (real_of_int secs) (log_event (GetEntity p) (w\<lparr>gateway := (gateway w)(p := ss)\<rparr>))"
    have step: "get_channel_info_from (s # ss) p w = get_channel_info_from ss p ?w1"
      using Raise_FloodWaitError by (simp add: Let_def)
    have g1: "set (gateway ?w1 q) \<subseteq> set (gateway w q) \<union> (if q = p then set (s # ss) else {})" for q
      by auto
    note ih = Cons [of ?w1]
    have a: "set (gateway (snd (get_channel_info_from ss p ?w1)) q)
          \<subseteq> set (gateway w q) \<union> (if q = p then set (s # ss) else {})" for q
      using ih [THEN conjunct1, rule_format, of q] g1 [of q] by (auto split: if_splits)
    have b: "\<exists>e full. Entity_Channel e full \<in> set (s # ss) \<and> i = channel_dict e full"
      if "fst (get_channel_info_from ss p ?w1) = Return (Some (InfoOk i))" for i
      using ih [THEN conjunct2, rule_format, OF that] by auto
    show ?thesis
      unfolding step using a b by blast
  qed (auto simp: Let_def error_dict_def)
qed

lemma get_channel_info_source:
  "set (gateway (snd (get_channel_info p w)) q) \<subseteq> set (gateway w q)"
  "fst (get_channel_info p w) = Return (Some (InfoOk i)) \<Longrightarrow>
     \<exists>e full. Entity_Channel e full \<in> set (gateway w p) \<and> i = channel_dict e full"
  using get_channel_info_from_source [of "gateway w p" p w]
  by (auto simp: get_channel_info_def split: if_splits)

lemma channel_answers_mono:
  "(\<forall>q. set (gateway w' q) \<subseteq> set (gateway w q)) \<Longrightarrow> channel_answers w' \<subseteq> channel_answers w"
  unfolding channel_answers_def by blast

lemma written_from_fetches_refl: "written_from_fetches w w"
  by (simp add: written_from_fetches_def)

lemma written_from_fetches_same:
  "db w' = db w \<Longrightarrow> (\<forall>q. set (gateway w' q) \<subseteq> set (gateway w q)) \<Longrightarrow> written_from_fetches w w'"
  by (simp add: written_from_fetches_def)

lemma written_from_fetches_subset:
  "set (db w') \<subseteq> set (db w) \<Longrightarrow> (\<forall>q. set (gateway w' q) \<subseteq> set (gateway w q))
     \<Longrightarrow> written_from_fetches w w'"
  by (auto simp: written_from_fetches_def)

lemma written_from_fetches_trans:
  assumes "written_from_fetches a b" and "written_from_fetches b c"
  shows "written_from_fetches a c"
proof -
  let ?B = "\<lambda>w. set (db w) \<union> info_row ` channel_answers w"
  let ?U = "\<lambda>w r r'. \<exists>e full t. Entity_Channel e full \<in> set (gateway w (PeerId (row_id r)))
               \<and> r' = r\<lparr>subscribers := info_subscribers (channel_dict e full), last_checked := t\<rparr>"
  have gab: "\<And>q. set (gateway b q) \<subseteq> set (gateway a q)"
    and gbc: "\<And>q. set (gateway c q) \<subseteq> set (gateway b q)"
    and rab: "\<And>r'. r' \<in> set (db b) \<Longrightarrow> r' \<in> ?B a \<or> (\<exists>r \<in> ?B a. ?U a r r')"
    and rbc: "\<And>r'. r' \<in> set (db c) \<Longrightarrow> r' \<in> ?B b \<or> (\<exists>r \<in> ?B b. ?U b r r')"
    using assms unfolding written_from_fetches_def by blast+
  have ans: "channel_answers b \<subseteq> channel_answers a"
    using gab by (intro channel_answers_mono) blast
  have base: "r \<in> ?B a \<or> (\<exists>r0 \<in> ?B a. ?U a r0 r)" if "r \<in> ?B b" for r
    using that rab ans by blast
  have step: "r' \<in> ?B a \<or> (\<exists>r \<in> ?B a. ?U a r r')" if "r' \<in> set (db c)" for r'
  proof -
    from rbc [OF that] consider (old) "r' \<in> ?B b" | (upd) r1 where "r1 \<in> ?B b" "?U b r1 r'"
      by blast
    then show ?thesis
    proof cases
      case old
      then show ?thesis by (rule base)
    next
      case upd
      then obtain e full t where u: "Entity_Channel e full \<in> set (gateway b (PeerId (row_id r1)))"
        "r' = r1\<lparr>subscribers := info_subscribers (channel_dict e full), last_checked := t\<rparr>"
        by blast
      have ua: "Entity_Channel e full \<in> set (gateway a (PeerId (row_id r1)))"
        using u(1) gab by blast
      from base [OF upd(1)] show ?thesis
      proof
        assume r1a: "r1 \<in> ?B a"
        have "?U a r1 r'"
          using ua u(2) by (intro exI [of _ e] exI [of _ full] exI [of _ t]) simp
        then show ?thesis using r1a by blast
      next
        assume "\<exists>r0 \<in> ?B a. ?U a r0 r1"
        then obtain r0 e0 full0 t0 where r0: "r0 \<in> ?B a"
          "r1 = r0\<lparr>subscribers := info_subscribers (channel_dict e0 full0), last_checked := t0\<rparr>"
          by blast
        have "row_id r1 = row_id r0"
          "r' = r0\<lparr>subscribers := info_subscribers (channel_dict e full), last_checked := t\<rparr>"
          using r0(2) u(2) by simp_all
        then have "?U a r0 r'"
          using ua by (intro exI [of _ e] exI [of _ full] exI [of _ t]) simp
        then show ?thesis using r0(1) by blast
      qed
    qed
  qed
  have "\<And>q. set (gateway c q) \<subseteq> set (gateway a q)"
    using gab gbc by blast
  then show ?thesis
    unfolding written_from_fetches_def using step by blast
qed

lemma set_insert_or_replace: "set (insert_or_replace r rows) \<subseteq> insert r (set rows)"
  by (auto simp: insert_or_replace_def set_insort_key)

lemma written_from_fetches_add:
  assumes "fst (get_channel_info p w) = Return (Some (InfoOk i))"
  shows "written_from_fetches w (snd (add_info_to_db i (snd (get_channel_info p w))))"
proof -
  let ?w1 = "snd (get_channel_info p w)"
  have i: "i \<in> channel_answers w"
    using get_channel_info_source(2) [OF assms] by (auto simp: channel_answers_def)
  have "set (db (snd (add_info_to_db i ?w1))) \<subseteq> insert (info_row i) (set (db w))"
    using set_insert_or_replace [of "info_row i" "db ?w1"]
    by (simp add: add_info_to_db_def add_channel_to_db_def info_row_def get_channel_info_frame)
  then have "set (db (snd (add_info_to_db i ?w1))) \<subseteq> set (db w) \<union> info_row ` channel_answers w"
    using i by auto
  moreover have "\<forall>q. set (gateway (snd (add_info_to_db i ?w1)) q) \<subseteq> set (gateway w q)"
    by (simp add: get_channel_info_source(1))
  ultimately show ?thesis
    unfolding written_from_fetches_def by blast
qed

lemma written_from_fetches_update:
  assumes "fst (get_channel_info (PeerId cid) w) = Return (Some (InfoOk i))"
  shows "written_from_fetches w
           (snd (update_channel_subscribers cid (info_subscribers i) (snd (get_channel_info (PeerId cid) w))))"
proof -
  let ?w1 = "snd (get_channel_info (PeerId cid) w)"
  obtain e full where ef: "Entity_Channel e full \<in> set (gateway w (PeerId cid))" "i = channel_dict e full"
    using get_channel_info_source(2) [OF assms] by blast
  have db1: "db ?w1 = db w"
    by (rule get_channel_info_frame)
  have rows: "r' \<in> set (db w) \<or> (\<exists>r \<in> set (db w). \<exists>e full t.
                Entity_Channel e full \<in> set (gateway w (PeerId (row_id r)))
                \<and> r' = r\<lparr>subscribers := info_subscribers (channel_dict e full), last_checked := t\<rparr>)"
    if "r' \<in> set (db (snd (update_channel_subscribers cid (info_subscribers i) ?w1)))" for r'
  proof -
    from that obtain r where r: "r \<in> set (db w)"
      "r' = (if row_id r = cid then r\<lparr>subscribers := info_subscribers i, last_checked := clock ?w1\<rparr> else r)"
      unfolding update_channel_subscribers_simps db1 by auto
    show ?thesis
    proof (cases "row_id r = cid")
      case True
      then have "Entity_Channel e full \<in> set (gateway w (PeerId (row_id r)))
          \<and> r' = r\<lparr>subscribers := info_subscribers (channel_dict e full), last_checked := clock ?w1\<rparr>"
        using r(2) ef by simp
      then show ?thesis using r(1) by blast
    next
      case False
      then show ?thesis using r by simp
    qed
  qed
  have "\<forall>q. set (gateway (snd (update_channel_subscribers cid (info_subscribers i) ?w1)) q)
          \<subseteq> set (gateway w q)"
    by (simp add: get_channel_info_source(1))
  then show ?thesis
    unfolding written_from_fetches_def using rows by blast
qed

lemma written_from_fetches_fetch: "written_from_fetches w (snd (get_channel_info p w))"
  by (rule written_from_fetches_same) (simp_all add: get_channel_info_frame get_channel_info_source(1))

lemma written_from_fetches_send: "written_from_fetches w (snd (send_admin_notification m w))"
  by (rule written_from_fetches_same) (simp_all add: send_admin_notification_frame)

lemma written_from_fetches_remove: "written_from_fetches w (snd (remove_channel_from_db cid w))"
  by (rule written_from_fetches_subset) (auto simp: remove_channel_from_db_def)

lemma written_from_fetches_sleep: "written_from_fetches w (asyncio_sleep d w)"
  by (rule written_from_fetches_same) simp_all

lemma written_from_fetches_log: "written_from_fetches w (log_event e w)"
  by (rule written_from_fetches_same) simp_all

lemmas wff = written_from_fetches_trans written_from_fetches_refl written_from_fetches_fetch
  written_from_fetches_send written_from_fetches_remove written_from_fetches_sleep
  written_from_fetches_log

lemma written_from_fetches_new:
  "written_from_fetches w (snd (process_new_channels dialogs ids w))"
  by (rule process_new_channels_rel [where R = written_from_fetches])
    (auto intro: wff written_from_fetches_add)

lemma written_from_fetches_removed:
  "written_from_fetches w (snd (process_removed_channels dbm ids w))"
proof (induction ids arbitrary: w)
  case Nil
  show ?case by (simp add: written_from_fetches_refl)
next
  case (Cons cid ids)
  show ?case
  proof (cases "dbm cid")
    case None
    then show ?thesis using Cons [of w] by simp
  next
    case (Some cd)
    obtain b w1 where rm: "remove_channel_from_db cid w = (b, w1)"
      by (cases "remove_channel_from_db cid w")
    have w1: "written_from_fetches w w1"
      using written_from_fetches_remove [of w cid] rm by simp
    obtain r w2 where s: "send_admin_notification (removed_message cd) w1 = (r, w2)"
      by (cases "send_admin_notification (removed_message cd) w1")
    have w2: "written_from_fetches w w2"
      using w1 written_from_fetches_send [of w1 "removed_message cd"] s
      by (auto intro: written_from_fetches_trans)
    have n1: "written_from_fetches w (snd (process_removed_channels dbm ids w1))"
      using w1 Cons [of w1] by (rule written_from_fetches_trans)
    have n2: "written_from_fetches w (snd (process_removed_channels dbm ids w2))"
      using w2 Cons [of w2] by (rule written_from_fetches_trans)
    show ?thesis
      using Some rm s w2 n1 n2 by (cases b; cases r) simp_all
  qed
qed

lemma written_from_fetches_reconcile:
  "written_from_fetches w (snd (reconcile_membership dialogs w))"
proof -
  let ?new = "new_channels dialogs (db w)" and ?rem = "removed_channels dialogs (db w)"
  obtain r1 w1 where n: "process_new_channels dialogs ?new w = (r1, w1)"
    by (cases "process_new_channels dialogs ?new w")
  have w1: "written_from_fetches w w1"
    using written_from_fetches_new [of w dialogs ?new] n by simp
  have w2: "written_from_fetches w (snd (process_removed_channels (db_map (db w)) ?rem w1))"
    using w1 written_from_fetches_removed by (rule written_from_fetches_trans)
  show ?thesis
    using n w1 w2
    by (cases r1) (simp_all add: reconcile_membership_def get_all_channels_from_db_def Let_def)
qed

lemma written_from_fetches_refresh_one:
  "written_from_fetches w (snd (refresh_one idx c w))"
proof -
  have "db (snd (refresh_one idx c w)) = db w
     \<or> (\<exists>i. fst (get_channel_info (PeerId (row_id c)) w) = Return (Some (InfoOk i))
          \<and> db (snd (refresh_one idx c w))
              = db (snd (update_channel_subscribers (row_id c) (info_subscribers i)
                     (snd (get_channel_info (PeerId (row_id c)) w)))))"
    by (rule refresh_one_write)
  moreover have g: "\<forall>q. set (gateway (snd (refresh_one idx c w)) q) \<subseteq> set (gateway w q)"
  proof -
    obtain r w1 where f: "get_channel_info (PeerId (row_id c)) w = (r, w1)"
      by (cases "get_channel_info (PeerId (row_id c)) w")
    have g1: "\<forall>q. set (gateway w1 q) \<subseteq> set (gateway w q)"
      using get_channel_info_source(1) [of "PeerId (row_id c)" w] f by simp
    have "gateway (snd (refresh_one idx c w)) = gateway w1"
      unfolding refresh_one_def refresh_try_def f
      by (auto simp: Let_def send_admin_notification_frame split: outcome.splits option.splits
          channel_info.splits exn.splits prod.splits
          dest!: arg_cong [where f = "\<lambda>x. gateway (snd x)"])
    then show ?thesis using g1 by simp
  qed
  ultimately show ?thesis
  proof (elim disjE exE conjE)
    assume "db (snd (refresh_one idx c w)) = db w"
    then show ?thesis using g by (rule written_from_fetches_same)
  next
    fix i
    assume i: "fst (get_channel_info (PeerId (row_id c)) w) = Return (Some (InfoOk i))"
      and d: "db (snd (refresh_one idx c w))
              = db (snd (update_channel_subscribers (row_id c) (info_subscribers i)
                     (snd (get_channel_info (PeerId (row_id c)) w))))"
    note u = written_from_fetches_update [OF i]
    show ?thesis
      using u g unfolding written_from_fetches_def d by blast
  qed
qed

lemma written_from_fetches_refresh_loop:
  "written_from_fetches w (snd (refresh_loop cs w))"
proof (induction cs arbitrary: w)
  case Nil
  show ?case by (simp add: written_from_fetches_refl)
next
  case (Cons ic cs)
  obtain idx c where ic: "ic = (idx, c)" by (cases ic)
  obtain r w1 where o: "refresh_one idx c w = (r, w1)"
    by (cases "refresh_one idx c w")
  have w1: "written_from_fetches w w1"
    using written_from_fetches_refresh_one [of w idx c] o by simp
  have "written_from_fetches w (snd (refresh_loop cs w1))"
    using w1 Cons [of w1] by (rule written_from_fetches_trans)
  then show ?case
    unfolding ic using o w1 by (cases r) simp_all
qed

lemma written_from_fetches_poll_try:
  "written_from_fetches w (snd (poll_try get_dialogs w))"
proof (cases get_dialogs)
  case (Return dialogs)
  obtain r w1 where m: "reconcile_membership dialogs w = (r, w1)"
    by (cases "reconcile_membership dialogs w")
  have w1: "written_from_fetches w w1"
    using written_from_fetches_reconcile [of w dialogs] m by simp
  have "written_from_fetches w (snd (refresh_subscribers w1))"
    unfolding refresh_subscribers_def
    using w1 written_from_fetches_refresh_loop by (rule written_from_fetches_trans)
  then show ?thesis
    using Return m w1 by (cases r) (simp_all add: poll_try_def)
qed (simp_all add: poll_try_def written_from_fetches_refl)

lemma written_from_fetches_poll_cycle:
  "written_from_fetches w (snd (poll_cycle polling_interval get_dialogs w))"
proof -
  obtain r w1 where p: "poll_try get_dialogs w = (r, w1)"
    by (cases "poll_try get_dialogs w")
  have w1: "written_from_fetches w w1"
    using written_from_fetches_poll_try [of w get_dialogs] p by simp
  have s: "written_from_fetches w (asyncio_sleep d w1)" for d
    using w1 written_from_fetches_sleep by (rule written_from_fetches_trans)
  have s2: "written_from_fetches w (asyncio_sleep d (asyncio_sleep d' w1))" for d d'
    using s written_from_fetches_sleep by (rule written_from_fetches_trans)
  show ?thesis
    unfolding poll_cycle_def p using w1 s s2
    by (cases r) (simp_all split: exn.splits)
qed

lemma written_from_fetches_fetch_add_send:
  assumes "get_channel_info p w = (Return (Some (InfoOk i)), w1)"
  shows "written_from_fetches w (snd (add_info_to_db i w1))"
    and "written_from_fetches w (snd (send_admin_notification m (snd (add_info_to_db i w1))))"
proof -
  show a: "written_from_fetches w (snd (add_info_to_db i w1))"
    using written_from_fetches_add [of p w i] assms by simp
  show "written_from_fetches w (snd (send_admin_notification m (snd (add_info_to_db i w1))))"
    using a written_from_fetches_send by (rule written_from_fetches_trans)
qed

lemma written_from_fetches_chat_action:
  "written_from_fetches w (snd (handle_chat_action me e w))"
proof -
  obtain r w1 where g: "get_channel_info (PeerId (chat_id e)) w = (r, w1)"
    by (cases "get_channel_info (PeerId (chat_id e)) w")
  have w1: "written_from_fetches w w1"
    using written_from_fetches_fetch [of w "PeerId (chat_id e)"] g by simp
  have join: "written_from_fetches w (snd (case r of
        Return (Some (InfoOk i)) \<Rightarrow>
          (case add_info_to_db i w1 of
             (True, w2) \<Rightarrow> send_admin_notification (added_message i) w2
           | (False, w2) \<Rightarrow> (Return (), w2))
      | Return (Some (InfoErr e)) \<Rightarrow>
          if err_error e = [] then (Raise (KeyError ''subscribers''), w1) else (Return (), w1)
      | Return None \<Rightarrow> (Return (), w1)
      | Raise x \<Rightarrow> (Raise x, w1)
      | Hang \<Rightarrow> (Hang, w1)))"
  proof (cases r)
    case (Return a)
    show ?thesis
    proof (cases a rule: fetched.cases)
      case (1 i)
      note f = written_from_fetches_fetch_add_send [OF g [unfolded Return 1]]
      obtain b w2 where a2: "add_info_to_db i w1 = (b, w2)"
        by (cases "add_info_to_db i w1")
      show ?thesis
        using f(1) f(2) [of "added_message i"] a2 Return 1 by (cases b) simp_all
    qed (use Return w1 in simp_all)
  qed (use w1 in simp_all)
  let ?w1 = "snd (remove_channel_from_db (chat_id e) w)"
  have leave: "written_from_fetches w (snd (case remove_channel_from_db (chat_id e) w of
          (True, w1) \<Rightarrow> send_admin_notification m w1
        | (False, w1) \<Rightarrow> (Return (), w1)))" for m
  proof -
    obtain b w2 where rm: "remove_channel_from_db (chat_id e) w = (b, w2)"
      by (cases "remove_channel_from_db (chat_id e) w")
    have w2: "written_from_fetches w w2"
      using written_from_fetches_remove [of w "chat_id e"] rm by simp
    have "written_from_fetches w (snd (send_admin_notification m w2))"
      using w2 written_from_fetches_send by (rule written_from_fetches_trans)
    then show ?thesis
      using rm w2 by (cases b) simp_all
  qed
  show ?thesis
    unfolding handle_chat_action_def Let_def g
    using join leave [of "left_message (chat_id e)
        (find (\<lambda>c. row_id c = chat_id e) (get_all_channels_from_db w))"]
    by (simp add: written_from_fetches_refl)
qed

lemma written_from_fetches_add_command:
  "written_from_fetches w (snd (add_channel_command cid w))"
proof -
  let ?w0 = "log_event (Respond (''Adding channel ID: `'' @ str_int cid @ ''`...'')) w"
  have w0: "written_from_fetches w ?w0"
    by (rule written_from_fetches_log)
  obtain r w1 where g: "get_channel_info (PeerId cid) ?w0 = (r, w1)"
    by (cases "get_channel_info (PeerId cid) ?w0")
  have w1: "written_from_fetches ?w0 w1"
    using written_from_fetches_fetch [of ?w0 "PeerId cid"] g by simp
  have l: "written_from_fetches ?w0 (log_event ev w1)" for ev
    using w1 written_from_fetches_log by (rule written_from_fetches_trans)
  have "written_from_fetches ?w0 (snd (add_channel_command cid w))"
  proof (cases r)
    case (Return a)
    show ?thesis
    proof (cases a rule: fetched.cases)
      case (1 i)
      note f = written_from_fetches_fetch_add_send(1) [OF g [unfolded Return 1]]
      obtain b w2 where a2: "add_info_to_db i w1 = (b, w2)"
        by (cases "add_info_to_db i w1")
      have "written_from_fetches ?w0 (log_event ev w2)" for ev
        using f [unfolded a2 snd_conv] written_from_fetches_log by (rule written_from_fetches_trans)
      then show ?thesis
        unfolding add_channel_command_def Let_def g Return 1 using a2 by (cases b) simp_all
    next
      case (2 e)
      then show ?thesis
        unfolding add_channel_command_def Let_def g Return using l by simp
    next
      case 3
      then show ?thesis
        unfolding add_channel_command_def Let_def g Return using l by simp
    qed
  next
    case (Raise x)
    then show ?thesis
      unfolding add_channel_command_def Let_def g using w1 by simp
  next
    case Hang
    then show ?thesis
      unfolding add_channel_command_def Let_def g using w1 by simp
  qed
  with w0 show ?thesis
    by (rule written_from_fetches_trans)
qed

lemma written_from_fetches_range_try:
  "written_from_fetches w (snd (add_range_try c k w))"
proof -
  obtain r w1 where g: "get_channel_info (PeerId c) w = (r, w1)"
    by (cases "get_channel_info (PeerId c) w")
  have w1: "written_from_fetches w w1"
    using written_from_fetches_fetch [of w "PeerId c"] g by simp
  have s: "written_from_fetches w (asyncio_sleep d w1)" for d
    using w1 written_from_fetches_sleep by (rule written_from_fetches_trans)
  show ?thesis
  proof (cases r)
    case (Return a)
    show ?thesis
    proof (cases a rule: fetched.cases)
      case (1 i)
      note f = written_from_fetches_fetch_add_send(1) [OF g [unfolded Return 1]]
      obtain b w2 where a2: "add_info_to_db i w1 = (b, w2)"
        by (cases "add_info_to_db i w1")
      show ?thesis
        unfolding add_range_try_def g Return 1 using f a2 by (cases b) simp_all
    qed (use Return w1 g in \<open>simp_all add: add_range_try_def\<close>)
  next
    case (Raise x)
    then show ?thesis
      unfolding add_range_try_def g using w1 s by (cases x) simp_all
  next
    case Hang
    then show ?thesis
      unfolding add_range_try_def g using w1 by simp
  qed
qed

lemma written_from_fetches_range_loop:
  "written_from_fetches w (snd (add_range_loop pct admin tot cs k w))"
proof (induction cs arbitrary: k w)
  case Nil
  show ?case by (simp add: written_from_fetches_refl)
next
  case (Cons ic cs)
  obtain i c where ic: "ic = (i, c)" by (cases ic)
  show ?case
  proof (cases "c = admin")
    case True
    then show ?thesis unfolding ic using Cons [of w k] by simp
  next
    case False
    obtain r w1 where t: "add_range_try c k w = (r, w1)"
      by (cases "add_range_try c k w")
    have w1: "written_from_fetches w w1"
      using written_from_fetches_range_try [of w c k] t by simp
    show ?thesis
    proof (cases r)
      case (Return k1)
      let ?w2 = "if i mod 50 = 0 \<or> int i = tot - 1
               then log_event (EditProgress (progress_message tot (pct (int i + 1) tot) (int i + 1) k1)) w1
               else w1"
      let ?w3 = "if i mod 10 = 0 then asyncio_sleep (1 / 2) ?w2 else ?w2"
      have w2: "written_from_fetches w ?w2"
        using w1 by (auto intro: written_from_fetches_trans written_from_fetches_log)
      have w3: "written_from_fetches w ?w3"
        using w2 by (auto intro: written_from_fetches_trans written_from_fetches_sleep)
      have "written_from_fetches w (snd (add_range_loop pct admin tot cs k1 ?w3))"
        using w3 Cons [of ?w3 k1] by (rule written_from_fetches_trans)
      then show ?thesis
        unfolding ic using False t Return by (simp add: Let_def)
    next
      case (Raise x)
      then show ?thesis unfolding ic using False t w1 by simp
    next
      case Hang
      then show ?thesis unfolding ic using False t w1 by simp
    qed
  qed
qed

lemma written_from_fetches_range_command:
  "written_from_fetches w (snd (add_range_command pct admin s e w))"
proof -
  let ?lo = "if s > e then e else s" and ?hi = "if s > e then s else e"
  let ?w0 = "log_event (Respond (start_message (?hi - ?lo + 1))) w"
  obtain r w1 where l: "add_range_loop pct admin (?hi - ?lo + 1) (List.enumerate 0 [?lo..?hi]) 0 ?w0 = (r, w1)"
    by (cases "add_range_loop pct admin (?hi - ?lo + 1) (List.enumerate 0 [?lo..?hi]) 0 ?w0")
  have w0: "written_from_fetches w ?w0"
    by (rule written_from_fetches_log)
  have "written_from_fetches ?w0 w1"
    using written_from_fetches_range_loop [of ?w0 pct admin "?hi - ?lo + 1" "List.enumerate 0 [?lo..?hi]" 0] l
    by simp
  with w0 have w1: "written_from_fetches w w1"
    by (rule written_from_fetches_trans)
  then have "written_from_fetches w (log_event ev w1)" for ev
    using written_from_fetches_log by (rule written_from_fetches_trans)
  then show ?thesis
    unfolding add_range_command_def Let_def l using w1 by (cases r) simp_all
qed

lemma refresh_one_write_source:
  "db (snd (refresh_one idx c w)) = db w
   \<or> (\<exists>e full. Entity_Channel e full \<in> set (gateway w (PeerId (row_id c)))
          \<and> db (snd (refresh_one idx c w))
              = db (snd (update_channel_subscribers (row_id c) (info_subscribers (channel_dict e full))
                     (snd (get_channel_info (PeerId (row_id c)) w)))))"
  using refresh_one_write [of idx c w] get_channel_info_source(2) [of "PeerId (row_id c)" w]
  by blast


lemma join_world_run:
  "db (snd (handle_chat_action 42 join_event join_world))
     = [info_row (channel_dict (example_channel 7 ''A'') (Participants 10))]"
  by (simp add: handle_chat_action_def join_event_def join_world_def example_world_def
      get_channel_info_def Let_def add_info_to_db_def add_channel_to_db_def insert_or_replace_def
      info_row_def send_admin_notification_def client_send_message_def)



section \<open>Running the reconciliation twice\<close>

lemma find_entity_id:
  "find (\<lambda>x. entity_id x = c) dialogs = Some E \<Longrightarrow> entity_id E = c"
  by (auto simp: find_Some_iff)

lemma find_current_channel:
  "c \<in> set (current_channels dialogs) \<Longrightarrow> find (\<lambda>x. entity_id x = c) dialogs \<noteq> None"
  by (auto simp: current_channels_def find_None_iff)

lemma get_channel_info_channel:
  assumes "gateway w p = map Raise_FloodWaitError secs @ Entity_Channel e full # rest"
  shows "fst (get_channel_info p w) = Return (Some (InfoOk (channel_dict e full)))"
    and "gateway (snd (get_channel_info p w)) = (gateway w)(p := rest)"
    and "db (snd (get_channel_info p w)) = db w"
proof -
  have nf: "\<forall>n. Entity_Channel e full \<noteq> Raise_FloodWaitError n"
    by simp
  note f = get_channel_info_from_floods [OF nf, of secs rest p w]
  show "fst (get_channel_info p w) = Return (Some (InfoOk (channel_dict e full)))"
    "gateway (snd (get_channel_info p w)) = (gateway w)(p := rest)"
    using f assms by (simp_all add: get_channel_info_def)
  show "db (snd (get_channel_info p w)) = db w"
    by (rule get_channel_info_frame)
qed

text \<open>
  When every channel of the list is found by \<^verbatim>\<open>client.get_entity\<close> under its id (after
  any number of flood waits) and the loop over the new channels returns, the store holds
  the ids it held before and the ids of the list.
\<close>

lemma process_new_channels_success:
  assumes "distinct ids"
    and "\<forall>c \<in> set ids. find (\<lambda>x. entity_id x = c) dialogs \<noteq> None"
    and "\<forall>c \<in> set ids. \<forall>E. find (\<lambda>x. entity_id x = c) dialogs = Some E \<longrightarrow>
           (\<exists>secs e full rest.
              gateway w (PeerEntity E) = map Raise_FloodWaitError secs @ Entity_Channel e full # rest
              \<and> ent_id e = c)"
    and "fst (process_new_channels dialogs ids w) = Return ()"
  shows "row_id ` set (db (snd (process_new_channels dialogs ids w))) = row_id ` set (db w) \<union> set ids"
  using assms
proof (induction ids arbitrary: w)
  case Nil
  show ?case by simp
next
  case (Cons c ids)
  obtain E where E: "find (\<lambda>x. entity_id x = c) dialogs = Some E"
    using Cons.prems(2) by auto
  have idE: "entity_id E = c"
    using E by (rule find_entity_id)
  obtain secs e full rest where
    g: "gateway w (PeerEntity E) = map Raise_FloodWaitError secs @ Entity_Channel e full # rest"
    and ide: "ent_id e = c"
    using Cons.prems(3) E by auto
  let ?i = "channel_dict e full"
  let ?w1 = "snd (get_channel_info (PeerEntity E) w)"
  let ?w2 = "snd (add_info_to_db ?i ?w1)"
  note f = get_channel_info_channel [OF g]
  obtain w1 where gi: "get_channel_info (PeerEntity E) w = (Return (Some (InfoOk ?i)), w1)"
    using f(1) by (cases "get_channel_info (PeerEntity E) w") simp
  have w1: "w1 = ?w1"
    by (simp add: gi)
  obtain r3 w3 where s: "send_admin_notification (detected_message ?i) (snd (add_info_to_db ?i w1)) = (r3, w3)"
    by (cases "send_admin_notification (detected_message ?i) (snd (add_info_to_db ?i w1))")
  have step: "process_new_channels dialogs (c # ids) w =
      (case r3 of Return u \<Rightarrow> process_new_channels dialogs ids w3
       | Raise x \<Rightarrow> (Raise x, w3) | Hang \<Rightarrow> (Hang, w3))"
    by (simp add: E gi s)
  have r3: "r3 = Return ()"
    using Cons.prems(4) unfolding step by (cases r3) simp_all
  have step': "process_new_channels dialogs (c # ids) w = process_new_channels dialogs ids w3"
    unfolding step r3 by simp
  have w3db: "db w3 = db ?w2" and w3gw: "gateway w3 = (gateway w)(PeerEntity E := rest)"
    using send_admin_notification_frame(1,2) [where m = "detected_message ?i" and w = "snd (add_info_to_db ?i w1)"]
      s f(2) by (simp_all add: w1)
  have ids3: "row_id ` set (db w3) = insert c (row_id ` set (db w))"
    unfolding w3db using f(3) ide by (simp add: channel_dict_def)
  have d: "distinct ids" and nc: "c \<notin> set ids"
    using Cons.prems(1) by simp_all
  have p2: "\<forall>c' \<in> set ids. find (\<lambda>x. entity_id x = c') dialogs \<noteq> None"
    using Cons.prems(2) by simp
  have p3: "\<forall>c' \<in> set ids. \<forall>E'. find (\<lambda>x. entity_id x = c') dialogs = Some E' \<longrightarrow>
           (\<exists>secs e full rest.
              gateway w3 (PeerEntity E') = map Raise_FloodWaitError secs @ Entity_Channel e full # rest
              \<and> ent_id e = c')"
  proof (intro ballI allI impI)
    fix c' E'
    assume c': "c' \<in> set ids" and E': "find (\<lambda>x. entity_id x = c') dialogs = Some E'"
    have "entity_id E' = c'"
      using E' by (rule find_entity_id)
    then have "E' \<noteq> E"
      using idE c' nc by auto
    then have "gateway w3 (PeerEntity E') = gateway w (PeerEntity E')"
      unfolding w3gw by simp
    then show "\<exists>secs e full rest.
              gateway w3 (PeerEntity E') = map Raise_FloodWaitError secs @ Entity_Channel e full # rest
              \<and> ent_id e = c'"
      using Cons.prems(3) c' E' by auto
  qed
  have p4: "fst (process_new_channels dialogs ids w3) = Return ()"
    using Cons.prems(4) unfolding step' .
  note ih = Cons.IH [OF d p2 p3 p4]
  show ?case
    unfolding step' ih ids3 by auto
qed

lemma process_removed_channels_ids:
  assumes "fst (process_removed_channels dbm ids w) = Return ()"
  shows "row_id ` set (db (snd (process_removed_channels dbm ids w)))
           = row_id ` set (db w) - {c \<in> set ids. dbm c \<noteq> None}"
proof -
  let ?w' = "snd (process_removed_channels dbm ids w)"
  obtain t where inv:
    "\<forall>c. c \<in> row_id ` set (db w) \<longrightarrow> c \<notin> row_id ` set (db ?w') \<longrightarrow>
         c \<in> set ids \<and> (\<exists>r. dbm c = Some r \<and> SendMessage (removed_message r) \<in> set t)"
    "fst (process_removed_channels dbm ids w) = Return () \<longrightarrow>
         (\<forall>c \<in> set ids. dbm c \<noteq> None \<longrightarrow> c \<notin> row_id ` set (db ?w'))"
    using process_removed_channels_inv [of dbm ids w] by blast
  have sub: "set (db ?w') \<subseteq> set (db w)"
    by (rule process_removed_channels_db)
  show ?thesis
  proof (intro equalityI subsetI)
    fix x assume x: "x \<in> row_id ` set (db ?w')"
    then have "x \<in> row_id ` set (db w)" using sub by auto
    moreover have "\<not> (x \<in> set ids \<and> dbm x \<noteq> None)"
      using inv(2) assms x by auto
    ultimately show "x \<in> row_id ` set (db w) - {c \<in> set ids. dbm c \<noteq> None}"
      by simp
  next
    fix x assume x: "x \<in> row_id ` set (db w) - {c \<in> set ids. dbm c \<noteq> None}"
    show "x \<in> row_id ` set (db ?w')"
    proof (rule ccontr)
      assume "x \<notin> row_id ` set (db ?w')"
      then have "x \<in> set ids \<and> (\<exists>r. dbm x = Some r)"
        using inv(1) x by auto
      then show False using x by auto
    qed
  qed
qed

lemma reconcile_membership_converges:
  assumes "reconcile_membership dialogs w = (Return (), w1)"
    and "\<forall>c \<in> set (new_channels dialogs (db w)). \<forall>E.
           find (\<lambda>x. entity_id x = c) dialogs = Some E \<longrightarrow>
           (\<exists>secs e full rest.
              gateway w (PeerEntity E) = map Raise_FloodWaitError secs @ Entity_Channel e full # rest
              \<and> ent_id e = c)"
  shows "row_id ` set (db w1) = set (current_channels dialogs)"
proof -
  let ?new = "new_channels dialogs (db w)" and ?rem = "removed_channels dialogs (db w)"
  let ?dbm = "db_map (db w)"
  let ?L = "set (current_channels dialogs)" and ?S = "row_id ` set (db w)"
  have new: "set ?new = ?L - ?S" and rem: "set ?rem = ?S - ?L" and dn: "distinct ?new"
    by (auto simp: new_channels_def removed_channels_def set_minus_def db_ids_def current_channels_def)
  obtain r1 wa where n: "process_new_channels dialogs ?new w = (r1, wa)"
    by (cases "process_new_channels dialogs ?new w")
  have r1: "r1 = Return ()"
    using assms(1)
    by (cases r1) (simp_all add: reconcile_membership_def get_all_channels_from_db_def Let_def n)
  have r: "process_removed_channels ?dbm ?rem wa = (Return (), w1)"
    using assms(1)
    by (simp add: reconcile_membership_def get_all_channels_from_db_def Let_def n r1)
  have f: "\<forall>c \<in> set ?new. find (\<lambda>x. entity_id x = c) dialogs \<noteq> None"
    using new find_current_channel by auto
  have ret: "fst (process_new_channels dialogs ?new w) = Return ()"
    by (simp add: n r1)
  have a: "row_id ` set (db wa) = ?S \<union> set ?new"
    using process_new_channels_success [OF dn f assms(2) ret] by (simp add: n)
  have b: "row_id ` set (db w1) = row_id ` set (db wa) - {c \<in> set ?rem. ?dbm c \<noteq> None}"
    using process_removed_channels_ids [of ?dbm ?rem wa] by (simp add: r)
  have c: "{c \<in> set ?rem. ?dbm c \<noteq> None} = ?S - ?L"
    unfolding rem using db_map_None [of "db w"] by auto
  show ?thesis
    unfolding b a c new by auto
qed

lemma reconcile_membership_fixpoint:
  assumes "row_id ` set (db w) = set (current_channels dialogs)"
  shows "reconcile_membership dialogs w = (Return (), w)"
proof -
  have "set (db_ids (db w)) = set (current_channels dialogs)"
    using assms by (simp add: db_ids_def)
  then show ?thesis
    by (simp add: reconcile_membership_def get_all_channels_from_db_def new_channels_def
        removed_channels_def set_minus_empty)
qed

text \<open>
  Claim C2, as amended. If in a run of the reconciliation every channel to add is found by
  \<^verbatim>\<open>client.get_entity\<close> under its id (after any number of flood waits) and the run
  returns, then the store holds exactly the ids of the live channels, and a second run on
  the same dialogs changes nothing: it returns the state as it is, so there is no request,
  no write and no notification. A live channel that a run has not stored is among the
  channels to add of the next run.
\<close>

theorem reconcile_idempotent:
  assumes "reconcile_membership dialogs w = (Return (), w1)"
    and "\<forall>c \<in> set (new_channels dialogs (db w)). \<forall>E.
           find (\<lambda>x. entity_id x = c) dialogs = Some E \<longrightarrow>
           (\<exists>secs e full rest.
              gateway w (PeerEntity E) = map Raise_FloodWaitError secs @ Entity_Channel e full # rest
              \<and> ent_id e = c)"
  shows "row_id ` set (db w1) = set (current_channels dialogs)
       \<and> reconcile_membership dialogs w1 = (Return (), w1)
       \<and> (\<forall>c \<in> set (current_channels dialogs). \<forall>w'.
             c \<notin> row_id ` set (db w') \<longrightarrow> c \<in> set (new_channels dialogs (db w')))"
proof -
  note c = reconcile_membership_converges [OF assms]
  note f = reconcile_membership_fixpoint [OF c]
  have "\<forall>c \<in> set (current_channels dialogs). \<forall>w'.
             c \<notin> row_id ` set (db w') \<longrightarrow> c \<in> set (new_channels dialogs (db w'))"
    by (simp add: new_channels_def set_minus_def db_ids_def)
  with c f show ?thesis by blast
qed

theorem reconcile_idempotent_witness:
  "reconcile_membership [Channel (example_channel 7 ''A'')]
       (snd (reconcile_membership [Channel (example_channel 7 ''A'')] cycle_world))
     = (Return (), snd (reconcile_membership [Channel (example_channel 7 ''A'')] cycle_world))
   \<and> map row_id (db cycle_world) = [3, 5]
   \<and> map row_id (db (snd (reconcile_membership [Channel (example_channel 7 ''A'')] cycle_world))) = [7]"
proof -
  let ?D = "[Channel (example_channel 7 ''A'')]"
  have 1: "reconcile_membership ?D cycle_world = (Return (), snd (reconcile_membership ?D cycle_world))"
    by (simp add: cycle_world_run)
  have new: "new_channels ?D (db cycle_world) = [7]"
    by (simp add: new_channels_def current_channels_def db_ids_def set_minus_def
        cycle_world_def example_world_def example_row_def example_channel_def)
  have fnd: "find (\<lambda>x. entity_id x = 7) ?D = Some (Channel (example_channel 7 ''A''))"
    by (simp add: example_channel_def)
  have 2: "\<forall>c \<in> set (new_channels ?D (db cycle_world)). \<forall>E.
           find (\<lambda>x. entity_id x = c) ?D = Some E \<longrightarrow>
           (\<exists>secs e full rest.
              gateway cycle_world (PeerEntity E) = map Raise_FloodWaitError secs @ Entity_Channel e full # rest
              \<and> ent_id e = c)"
    unfolding new
  proof (intro ballI allI impI)
    fix c E
    assume c: "c \<in> set [7::int]" and E: "find (\<lambda>x. entity_id x = c) ?D = Some E"
    have c7: "c = 7" using c by simp
    have Eeq: "E = Channel (example_channel 7 ''A'')"
      using E fnd unfolding c7 by simp
    show "\<exists>secs e full rest.
              gateway cycle_world (PeerEntity E) = map Raise_FloodWaitError secs @ Entity_Channel e full # rest
              \<and> ent_id e = c"
      unfolding Eeq c7
      by (intro exI [of _ "[]"] exI [of _ "example_channel 7 ''A''"] exI [of _ "Participants 10"]
          exI [of _ "[]"]) (simp add: cycle_world_def example_channel_def)
  qed
  have 3: "map row_id (db cycle_world) = [3, 5]"
    "map row_id (db (snd (reconcile_membership ?D cycle_world))) = [7]"
    unfolding cycle_world_run by (simp_all add: cycle_world_def example_world_def example_row_def)
  show ?thesis
    using reconcile_idempotent [OF 1 2, THEN conjunct2, THEN conjunct1] 3 by blast
qed

text \<open>
  The claim as stated fails when a fetch of the first run fails: the channel is not added,
  and the second run, on the same dialogs and the same store, fetches it again, stores it
  and sends a notification.
\<close>

theorem reconcile_twice_counterexample:
  "db (snd (reconcile_membership [Channel (example_channel 7 ''A'')] retry_world)) = db retry_world
   \<and> fst (reconcile_membership [Channel (example_channel 7 ''A'')] retry_world) = Return ()
   \<and> map row_id (db (snd (reconcile_membership [Channel (example_channel 7 ''A'')]
         (snd (reconcile_membership [Channel (example_channel 7 ''A'')] retry_world))))) = [7]
   \<and> db (snd (reconcile_membership [Channel (example_channel 7 ''A'')] retry_world)) = []
   \<and> sent_messages (new_events
         (snd (reconcile_membership [Channel (example_channel 7 ''A'')] retry_world))
         (snd (reconcile_membership [Channel (example_channel 7 ''A'')]
           (snd (reconcile_membership [Channel (example_channel 7 ''A'')] retry_world)))))
       = [detected_message (channel_dict (example_channel 7 ''A'') (Participants 10))]"
proof -
  let ?D = "[Channel (example_channel 7 ''A'')]"
  let ?p = "PeerEntity (Channel (example_channel 7 ''A''))"
  let ?w1 = "retry_world\<lparr>gateway := no_gateway(?p :=
                 [Entity_Channel (example_channel 7 ''A'') (Participants 10)]),
               trace := [GetEntity ?p]\<rparr>"
  have 1: "reconcile_membership ?D retry_world = (Return (), ?w1)"
    by (simp add: reconcile_membership_def get_all_channels_from_db_def new_channels_def
        removed_channels_def current_channels_def db_ids_def set_minus_def db_map_def
        retry_world_def example_world_def example_channel_def
        get_channel_info_def error_dict_def Let_def log_event_def)
  have 2: "reconcile_membership ?D ?w1 =
     (Return (),
      ?w1\<lparr>db := [\<lparr>row_id = 7, title = ''A'', access_hash = Some 77,
                          link = Some ''https://t.me/c/7'', subscribers = 10, last_checked = 0\<rparr>],
           gateway := no_gateway(?p := []),
           sender := [],
           trace := [GetEntity ?p, GetEntity ?p,
                     SendMessage (detected_message (channel_dict (example_channel 7 ''A'') (Participants 10)))]\<rparr>)"
    by (simp add: reconcile_membership_def get_all_channels_from_db_def new_channels_def
        removed_channels_def current_channels_def db_ids_def set_minus_def db_map_def
        retry_world_def example_world_def example_channel_def
        add_info_to_db_def add_channel_to_db_def insert_or_replace_def
        get_channel_info_def channel_dict_def Let_def
        send_admin_notification_def client_send_message_def log_event_def
        str_int_def digits.simps)
  show ?thesis
    unfolding 1 snd_conv fst_conv 2
    by (simp add: retry_world_def example_world_def new_events_def)
qed

end
